theory Spec2Isabelle
  imports Main "HOL-Library.Sublist"
begin

section \<open>Data model\<close>

text \<open>
  The development embeds \<^verbatim>\<open>src/corelib/io/qsavefile.cpp\<close>: the functions of
  \<^verbatim>\<open>QSaveFile\<close> are translated statement by statement. The classes it calls
  (\<^verbatim>\<open>QFileInfo\<close>, the file engines, \<^verbatim>\<open>QFileDevice\<close>) are not part of that file;
  they are modelled over an explicit file table, and the outcome of every engine call
  that the file table does not decide is read from an \<open>Environment\<close> value.
\<close>

text \<open>
  Modelled from the spec: the enumeration \<^verbatim>\<open>QFileDevice::FileError\<close>, declared in a
  header that is not among the sources (section 7 lists the kinds; \<^verbatim>\<open>qsavefile.cpp\<close>
  itself names \<open>NoError\<close>, \<open>WriteError\<close>, \<open>OpenError\<close> and \<open>UnspecifiedError\<close>).
\<close>

datatype FileError =
    NoError | ReadError | WriteError | FatalError | ResourceError | OpenError
  | AbortError | TimeOutError | UnspecifiedError | RemoveError | RenameError
  | PositionError | ResizeError | PermissionsError | CopyError

text \<open>
  Modelled from the spec: the flags of \<^verbatim>\<open>QIODevice::OpenMode\<close>, declared in a header
  that is not among the sources. The mode is a flag set: \<^verbatim>\<open>a | b\<close> is union,
  \<^verbatim>\<open>a & b\<close> is intersection, and \<^verbatim>\<open>== 0\<close> (\<^verbatim>\<open>NotOpen\<close>) is the empty set.
\<close>

datatype OpenModeFlag =
  ReadOnly | WriteOnly | Append | Truncate | Text | Unbuffered | NewOnly | ExistingOnly

type_synonym OpenMode = "OpenModeFlag set"

text \<open>The three build configurations that the preprocessor branches of \<^verbatim>\<open>open()\<close> tell apart.\<close>

datatype Platform = Windows | Android | Unix

text \<open>
  One entry of the file table: what the path metadata interface reports for a path,
  and the bytes stored there. A symbolic link is an entry of its own, with its target;
  a path without an entry does not exist. Permission bits are the platform's mode bits
  (\<^verbatim>\<open>int perm = 0600\<close> is \<open>384\<close>, \<^verbatim>\<open>0666\<close> is \<open>438\<close>).
\<close>

record Entry =
  isDirectory :: bool
  isWritable :: bool
  symLink :: "string option"
  permissionBits :: int
  content :: string

text \<open>The trace of file-engine calls, in the order they are made.\<close>

datatype EngineCall =
    CallOpenTemporary string int OpenMode
  | CallOpen string OpenMode
  | CallClose string
  | CallWrite string string
  | CallSyncToDisk string
  | CallRemove string
  | CallRenameOverwrite string string
  | CallSetPermissions string int

text \<open>The \<^verbatim>\<open>qWarning\<close> messages of \<^verbatim>\<open>QSaveFile\<close>, with their arguments.\<close>

datatype Warning =
    WarnAlreadyOpen string
  | WarnModeNotSpecified
  | WarnUnsupportedMode OpenMode
  | WarnCommitNotOpen string

record World =
  files :: "string \<rightharpoonup> Entry"
  calls :: "EngineCall list"
  warnings :: "Warning list"

text \<open>
  What the surroundings decide for one call: the build platform, the process umask, the
  unique suffix the temporary-file engine picks, and whether the engine's open, write and
  rename fail (with the error kind and message the engine then reports; for the
  temporary file also whether \<^verbatim>\<open>errno == EACCES\<close>).
\<close>

record Environment =
  platform :: Platform
  umask :: int
  tmpSuffix :: string
  tmpOpenFailure :: "(FileError \<times> string \<times> bool) option"
  directOpenFailure :: "(FileError \<times> string) option"
  writeFailure :: "(FileError \<times> string) option"
  renameFailure :: "(FileError \<times> string) option"

text \<open>A file engine object: which class it is, the file it names, and its last error.\<close>

record Engine =
  temporary :: bool
  enginePath :: string
  engineError :: FileError
  engineErrorString :: string

text \<open>
  \<^verbatim>\<open>QSaveFilePrivate\<close> with the members it inherits from \<^verbatim>\<open>QFileDevicePrivate\<close>
  (\<open>fileEngine\<close>, \<open>error\<close>, \<open>errorString\<close>) and \<^verbatim>\<open>QIODevicePrivate\<close> (\<open>openMode\<close>).
\<close>

record QSaveFilePrivate =
  fileName :: string
  finalFileName :: string
  fileEngine :: "Engine option"
  openMode :: OpenMode
  error :: FileError
  errorString :: string
  writeError :: FileError
  useTemporaryFile :: bool
  directWriteFallback :: bool

text \<open>The result of a call that may end the program (\<^verbatim>\<open>qFatal\<close>).\<close>

datatype 'a Outcome = Returned 'a | Fatal string

section \<open>Collaborators\<close>

subsection \<open>Path metadata\<close>

text \<open>Modelled from the spec: \<^verbatim>\<open>QFileInfo::exists\<close> (path metadata \<^verbatim>\<open>exists(path)\<close>).\<close>

definition QFileInfo_exists :: "World \<Rightarrow> string \<Rightarrow> bool" where
  "QFileInfo_exists w p = (files w p \<noteq> None)"

text \<open>Modelled from the spec: \<^verbatim>\<open>QFileInfo::isWritable\<close> (path metadata \<^verbatim>\<open>isWritable(path)\<close>).\<close>

definition QFileInfo_isWritable :: "World \<Rightarrow> string \<Rightarrow> bool" where
  "QFileInfo_isWritable w p = (case files w p of None \<Rightarrow> False | Some e \<Rightarrow> isWritable e)"

text \<open>Modelled from the spec: \<^verbatim>\<open>QFileInfo::isDir\<close> (path metadata \<^verbatim>\<open>isDirectory(path)\<close>).\<close>

definition QFileInfo_isDir :: "World \<Rightarrow> string \<Rightarrow> bool" where
  "QFileInfo_isDir w p = (case files w p of None \<Rightarrow> False | Some e \<Rightarrow> isDirectory e)"

text \<open>Modelled from the spec: \<^verbatim>\<open>QFileInfo::isSymLink\<close> (path metadata \<^verbatim>\<open>isSymlink(path)\<close>).\<close>

definition QFileInfo_isSymLink :: "World \<Rightarrow> string \<Rightarrow> bool" where
  "QFileInfo_isSymLink w p = (case files w p of None \<Rightarrow> False | Some e \<Rightarrow> symLink e \<noteq> None)"

text \<open>
  Modelled from the spec: \<^verbatim>\<open>QFileInfo::symLinkTarget\<close> (path metadata
  \<^verbatim>\<open>symlinkTarget(path)\<close>); the empty string when the path is no link.
\<close>

definition QFileInfo_symLinkTarget :: "World \<Rightarrow> string \<Rightarrow> string" where
  "QFileInfo_symLinkTarget w p =
     (case files w p of None \<Rightarrow> [] | Some e \<Rightarrow> (case symLink e of None \<Rightarrow> [] | Some t \<Rightarrow> t))"

text \<open>Modelled from the spec: \<^verbatim>\<open>QFileInfo::permissions\<close> (path metadata \<^verbatim>\<open>permissions(path)\<close>).\<close>

definition QFileInfo_permissions :: "World \<Rightarrow> string \<Rightarrow> int" where
  "QFileInfo_permissions w p = (case files w p of None \<Rightarrow> 0 | Some e \<Rightarrow> permissionBits e)"

subsection \<open>File engines\<close>

text \<open>
  Modelled from the spec: what the engines below share. Every engine call is appended to
  the trace; \<^verbatim>\<open>qWarning\<close> appends to the log of warnings; a file that an engine creates
  is an empty regular file; a failing call leaves its error kind and message in the engine.
\<close>

definition logCall :: "EngineCall \<Rightarrow> World \<Rightarrow> World" where
  "logCall c w = w\<lparr>calls := calls w @ [c]\<rparr>"

definition warn :: "Warning \<Rightarrow> World \<Rightarrow> World" where
  "warn m w = w\<lparr>warnings := warnings w @ [m]\<rparr>"

definition newEntry :: "int \<Rightarrow> Entry" where
  "newEntry perm =
     \<lparr>isDirectory = False, isWritable = True, symLink = None, permissionBits = perm, content = []\<rparr>"

definition engineFail :: "FileError \<Rightarrow> string \<Rightarrow> Engine \<Rightarrow> Engine" where
  "engineFail err msg fe = fe\<lparr>engineError := err, engineErrorString := msg\<rparr>"

text \<open>
  Modelled from the spec: the file-engine factory \<^verbatim>\<open>createEngine(path)\<close>
  (\<^verbatim>\<open>QAbstractFileEngine::create\<close> builds a \<^verbatim>\<open>QFSFileEngine\<close>, which is not in the
  sources). A fresh engine reports \<open>UnspecifiedError\<close>.
\<close>

definition QAbstractFileEngine_create :: "string \<Rightarrow> Engine" where
  "QAbstractFileEngine_create p =
     \<lparr>temporary = False, enginePath = p, engineError = UnspecifiedError, engineErrorString = []\<rparr>"

text \<open>
  Modelled from the spec: the constructor and \<^verbatim>\<open>initialize\<close> of
  \<^verbatim>\<open>QTemporaryFileEngine\<close>; the engine holds the template name until it is opened.
\<close>

definition QTemporaryFileEngine_create :: "string \<Rightarrow> Engine" where
  "QTemporaryFileEngine_create p =
     \<lparr>temporary = True, enginePath = p, engineError = UnspecifiedError, engineErrorString = []\<rparr>"

text \<open>
  Modelled from the spec: \<^verbatim>\<open>QTemporaryFileEngine::open\<close> (section 4.3, Temporary Staging
  File). The staging file is created in the directory of the template, under the template
  name followed by a dot and the unique suffix, with the requested permission bits
  less the umask. The name is never one that is taken already: creation is exclusive.
\<close>

definition QTemporaryFileEngine_open ::
  "Environment \<Rightarrow> OpenMode \<Rightarrow> int \<Rightarrow> Engine \<Rightarrow> World \<Rightarrow> bool \<times> Engine \<times> World" where
  "QTemporaryFileEngine_open env mode perm fe w =
     (let name = enginePath fe @ ''.'' @ tmpSuffix env;
          w1 = logCall (CallOpenTemporary (enginePath fe) perm mode) w
      in case tmpOpenFailure env of
           Some (err, msg, eacces) \<Rightarrow> (False, engineFail err msg fe, w1)
         | None \<Rightarrow>
             if files w1 name \<noteq> None then (False, engineFail OpenError ''File exists'' fe, w1)
             else (True, fe\<lparr>enginePath := name\<rparr>,
                   w1\<lparr>files := (files w1)(name \<mapsto> newEntry (and perm (not (umask env))))\<rparr>))"

text \<open>
  Modelled from the spec: \<^verbatim>\<open>QFSFileEngine::open\<close> for a write-only mode (section 4.5,
  Direct-Write Fallback: the destination itself is opened for writing, in place). An
  existing file is truncated, a missing one is created.
\<close>

definition QFSFileEngine_open ::
  "Environment \<Rightarrow> OpenMode \<Rightarrow> Engine \<Rightarrow> World \<Rightarrow> bool \<times> Engine \<times> World" where
  "QFSFileEngine_open env mode fe w =
     (let w1 = logCall (CallOpen (enginePath fe) mode) w
      in case directOpenFailure env of
           Some (err, msg) \<Rightarrow> (False, engineFail err msg fe, w1)
         | None \<Rightarrow>
             (True, fe,
              w1\<lparr>files := (files w1)(enginePath fe \<mapsto>
                    (case files w1 (enginePath fe) of
                       None \<Rightarrow> newEntry (and 438 (not (umask env)))
                     | Some e \<Rightarrow> e\<lparr>content := []\<rparr>))\<rparr>))"

text \<open>
  Modelled from the spec: the engine's \<^verbatim>\<open>write\<close>. It returns the number of bytes
  written, or \<open>-1\<close> and an error.
\<close>

definition engine_write ::
  "Environment \<Rightarrow> string \<Rightarrow> Engine \<Rightarrow> World \<Rightarrow> int \<times> Engine \<times> World" where
  "engine_write env data fe w =
     (let w1 = logCall (CallWrite (enginePath fe) data) w
      in case writeFailure env of
           Some (err, msg) \<Rightarrow> (- 1, engineFail err msg fe, w1)
         | None \<Rightarrow>
             (int (length data), fe,
              w1\<lparr>files := (case files w1 (enginePath fe) of
                              None \<Rightarrow> files w1
                            | Some e \<Rightarrow> (files w1)(enginePath fe \<mapsto> e\<lparr>content := content e @ data\<rparr>))\<rparr>))"

text \<open>Modelled from the spec: the engine's \<^verbatim>\<open>close\<close>.\<close>

definition engine_close :: "Engine \<Rightarrow> World \<Rightarrow> bool \<times> World" where
  "engine_close fe w = (True, logCall (CallClose (enginePath fe)) w)"

text \<open>Modelled from the spec: the engine's \<^verbatim>\<open>syncToDisk\<close> (best effort, no effect on the file table).\<close>

definition engine_syncToDisk :: "Engine \<Rightarrow> World \<Rightarrow> bool \<times> World" where
  "engine_syncToDisk fe w = (True, logCall (CallSyncToDisk (enginePath fe)) w)"

text \<open>
  Modelled from the spec: the engine's \<^verbatim>\<open>remove\<close>: the engine's file is deleted
  (the spec has the staging file discarded unconditionally).
\<close>

definition engine_remove :: "Engine \<Rightarrow> World \<Rightarrow> bool \<times> World" where
  "engine_remove fe w =
     (let w1 = logCall (CallRemove (enginePath fe)) w
      in (files w1 (enginePath fe) \<noteq> None, w1\<lparr>files := (files w1)(enginePath fe := None)\<rparr>))"

text \<open>
  Modelled from the spec: the engine's \<^verbatim>\<open>renameOverwrite\<close>, one atomic
  replace-or-fail: on success the engine's file takes the new name, replacing what was
  there; on failure nothing changes.
\<close>

definition engine_renameOverwrite ::
  "Environment \<Rightarrow> string \<Rightarrow> Engine \<Rightarrow> World \<Rightarrow> bool \<times> Engine \<times> World" where
  "engine_renameOverwrite env newName fe w =
     (let w1 = logCall (CallRenameOverwrite (enginePath fe) newName) w
      in case renameFailure env of
           Some (err, msg) \<Rightarrow> (False, engineFail err msg fe, w1)
         | None \<Rightarrow>
             (case files w1 (enginePath fe) of
                None \<Rightarrow> (False, engineFail RenameError ''No such file or directory'' fe, w1)
              | Some e \<Rightarrow>
                  (True, fe\<lparr>enginePath := newName\<rparr>,
                   w1\<lparr>files := (files w1)(enginePath fe := None, newName \<mapsto> e)\<rparr>)))"

text \<open>Modelled from the spec: the engine's \<^verbatim>\<open>setPermissions\<close>.\<close>

definition engine_setPermissions :: "int \<Rightarrow> Engine \<Rightarrow> World \<Rightarrow> bool \<times> World" where
  "engine_setPermissions perms fe w =
     (let w1 = logCall (CallSetPermissions (enginePath fe) perms) w
      in case files w1 (enginePath fe) of
           None \<Rightarrow> (False, w1)
         | Some e \<Rightarrow> (True, w1\<lparr>files := (files w1)(enginePath fe \<mapsto> e\<lparr>permissionBits := perms\<rparr>)\<rparr>))"

subsection \<open>The device layer\<close>

text \<open>Modelled from the spec: \<^verbatim>\<open>QIODevice::isOpen\<close> (the session attribute \<^verbatim>\<open>isOpen\<close>).\<close>

definition isOpen :: "QSaveFilePrivate \<Rightarrow> bool" where
  "isOpen d = (openMode d \<noteq> {})"

text \<open>Modelled from the spec: \<^verbatim>\<open>QFileDevicePrivate::setError\<close> (error kind and message).\<close>

definition setError :: "FileError \<Rightarrow> string \<Rightarrow> QSaveFilePrivate \<Rightarrow> QSaveFilePrivate" where
  "setError err msg d = d\<lparr>error := err, errorString := msg\<rparr>"

text \<open>Modelled from the spec: \<^verbatim>\<open>QFileDevice::unsetError\<close>.\<close>

definition unsetError :: "QSaveFilePrivate \<Rightarrow> QSaveFilePrivate" where
  "unsetError d = setError NoError [] d"

text \<open>Modelled from the spec: \<^verbatim>\<open>QFileDevice::open(mode)\<close>, which marks the device open.\<close>

definition QFileDevice_open :: "OpenMode \<Rightarrow> QSaveFilePrivate \<Rightarrow> QSaveFilePrivate" where
  "QFileDevice_open mode d = d\<lparr>openMode := mode\<rparr>"

text \<open>
  Modelled from the spec: \<^verbatim>\<open>QFileDevice::close\<close>. Buffering belongs to the excluded
  device layer, so nothing is pending here: the device is marked closed and the engine's
  handle is closed.
\<close>

definition QFileDevice_close :: "QSaveFilePrivate \<Rightarrow> World \<Rightarrow> QSaveFilePrivate \<times> World" where
  "QFileDevice_close d w =
     (if \<not> isOpen d then (d, w)
      else (d\<lparr>openMode := {}\<rparr>,
            (case fileEngine d of None \<Rightarrow> w | Some fe \<Rightarrow> snd (engine_close fe w))))"

text \<open>
  Modelled from the spec: \<^verbatim>\<open>QFileDevice::writeData\<close> on an unbuffered device (section
  4.4: the write is delegated to the underlying file; an error it reports becomes the
  device's error, kind and message). An engine that reports \<open>UnspecifiedError\<close> leaves
  the kind to the device, which takes \<open>WriteError\<close>.
\<close>

definition QFileDevice_writeData ::
  "Environment \<Rightarrow> string \<Rightarrow> QSaveFilePrivate \<Rightarrow> World \<Rightarrow> int \<times> QSaveFilePrivate \<times> World" where
  "QFileDevice_writeData env data d w =
     (let d1 = unsetError d
      in case fileEngine d1 of
           None \<Rightarrow> (- 1, d1, w)
         | Some fe \<Rightarrow>
             (let (ret, fe', w') = engine_write env data fe w;
                  d2 = d1\<lparr>fileEngine := Some fe'\<rparr>
              in if ret < 0
                 then (ret,
                       setError (if engineError fe' = UnspecifiedError then WriteError
                                 else engineError fe')
                                (engineErrorString fe') d2,
                       w')
                 else (ret, d2, w')))"

text \<open>Modelled from the spec: \<^verbatim>\<open>QFileDevice::setPermissions\<close>.\<close>

definition setPermissions :: "int \<Rightarrow> QSaveFilePrivate \<Rightarrow> World \<Rightarrow> bool \<times> QSaveFilePrivate \<times> World" where
  "setPermissions perms d w =
     (case fileEngine d of
        None \<Rightarrow> (False, setError PermissionsError [] d, w)
      | Some fe \<Rightarrow>
          (let (ok, w') = engine_setPermissions perms fe w
           in if ok then (True, d, w')
              else (False, setError PermissionsError (engineErrorString fe) d, w')))"

section \<open>QSaveFile\<close>

text \<open>The constructor \<^verbatim>\<open>QSaveFile(const QString &name)\<close> with \<^verbatim>\<open>QSaveFilePrivate()\<close>.\<close>

definition QSaveFile :: "string \<Rightarrow> QSaveFilePrivate" where
  "QSaveFile name =
     \<lparr>fileName = name, finalFileName = [], fileEngine = None, openMode = {},
      error = NoError, errorString = [],
      writeError = NoError, useTemporaryFile = True, directWriteFallback = False\<rparr>"

definition setFileName :: "string \<Rightarrow> QSaveFilePrivate \<Rightarrow> QSaveFilePrivate" where
  "setFileName name d = d\<lparr>fileName := name\<rparr>"

definition setDirectWriteFallback :: "bool \<Rightarrow> QSaveFilePrivate \<Rightarrow> QSaveFilePrivate" where
  "setDirectWriteFallback enabled d = d\<lparr>directWriteFallback := enabled\<rparr>"

subsection \<open>open\<close>

text \<open>
  The loop \<^verbatim>\<open>while (--maxDepth && existingFile.isSymLink()) existingFile.setFile(existingFile.symLinkTarget());\<close>
  The first argument is \<^verbatim>\<open>maxDepth\<close> before the decrement; the result is
  \<^verbatim>\<open>maxDepth\<close> and \<^verbatim>\<open>existingFile\<close> after the loop. The loop is entered with
  \<open>128\<close> only, so the counter never starts at \<open>0\<close>.
\<close>

fun followSymLinks :: "World \<Rightarrow> nat \<Rightarrow> string \<Rightarrow> nat \<times> string" where
  "followSymLinks w (Suc m) existingFile =
     (if m \<noteq> 0 \<and> QFileInfo_isSymLink w existingFile
      then followSymLinks w m (QFileInfo_symLinkTarget w existingFile)
      else (m, existingFile))"
| "followSymLinks w 0 existingFile = (0, existingFile)"

text \<open>
  Lines 193 to 200 of \<^verbatim>\<open>open()\<close>: the pair of \<^verbatim>\<open>existingFile\<close> after the block and
  of \<^verbatim>\<open>d->finalFileName\<close>.
\<close>

definition resolveSymLinks :: "World \<Rightarrow> string \<Rightarrow> string \<times> string" where
  "resolveSymLinks w name =
     (if QFileInfo_isSymLink w name
      then (let (maxDepth, existingFile) = followSymLinks w 128 name
            in (existingFile, if maxDepth > 0 then existingFile else name))
      else (name, name))"

text \<open>\<^verbatim>\<open>QString::indexOf(ch, from)\<close>: the first position at or after \<open>from\<close>, or \<open>-1\<close>.\<close>

definition indexOf :: "string \<Rightarrow> char \<Rightarrow> nat \<Rightarrow> int" where
  "indexOf s c from =
     (if c \<in> set (drop from s)
      then int (from + length (takeWhile (\<lambda>x. x \<noteq> c) (drop from s)))
      else - 1)"

text \<open>The platform test of lines 212 to 219.\<close>

definition requiresDirectWrite :: "Platform \<Rightarrow> QSaveFilePrivate \<Rightarrow> bool" where
  "requiresDirectWrite pf d =
     (case pf of
        Windows \<Rightarrow> finalFileName d = fileName d \<and> indexOf (fileName d) (CHR '':'') 2 > 1
      | Android \<Rightarrow> prefix ''content://'' (fileName d)
      | Unix \<Rightarrow> False)"

text \<open>\<^verbatim>\<open>Q_OS_UNIX\<close> is defined on Android as on the other Unix systems.\<close>

definition Q_OS_UNIX :: "Platform \<Rightarrow> bool" where
  "Q_OS_UNIX pf = (pf \<noteq> Windows)"

text \<open>Modelled from the spec: \<^verbatim>\<open>QDir::toNativeSeparators\<close>, used in one message only.\<close>

definition toNativeSeparators :: "Platform \<Rightarrow> string \<Rightarrow> string" where
  "toNativeSeparators pf s =
     (if pf = Windows then map (\<lambda>c. if c = CHR ''/'' then CHR 0x5C else c) s else s)"

text \<open>The lambda \<^verbatim>\<open>openDirectly\<close> of \<^verbatim>\<open>open()\<close>.\<close>

definition openDirectly ::
  "Environment \<Rightarrow> OpenMode \<Rightarrow> QSaveFilePrivate \<Rightarrow> World \<Rightarrow> bool \<times> QSaveFilePrivate \<times> World" where
  "openDirectly env mode d w =
     (let (ok, fe, w') =
            QFSFileEngine_open env (mode \<union> {Unbuffered}) (QAbstractFileEngine_create (finalFileName d)) w;
          d1 = d\<lparr>fileEngine := Some fe\<rparr>
      in if ok then (True, QFileDevice_open mode (d1\<lparr>useTemporaryFile := False\<rparr>), w')
         else (False, d1, w'))"

text \<open>Lines 220 to 234: the branch taken when the path cannot be renamed onto.\<close>

definition openRequiringDirectWrite ::
  "Environment \<Rightarrow> OpenMode \<Rightarrow> QSaveFilePrivate \<Rightarrow> World \<Rightarrow> bool \<times> QSaveFilePrivate \<times> World" where
  "openRequiringDirectWrite env mode d w =
     (if directWriteFallback d
      then (let (ok, d1, w1) = openDirectly env mode d w
            in if ok then (True, d1, w1)
               else (False,
                     (setError (engineError (the (fileEngine d1)))
                               (engineErrorString (the (fileEngine d1))) d1)\<lparr>fileEngine := None\<rparr>,
                     w1))
      else (False,
            setError OpenError
              (''QSaveFile cannot open '' @ [CHR 0x27] @ toNativeSeparators (platform env) (fileName d)
                 @ [CHR 0x27] @ '' without direct write fallback enabled.'') d,
            w))"

text \<open>Lines 236 to 263: the staging file.\<close>

definition openTemporary ::
  "Environment \<Rightarrow> OpenMode \<Rightarrow> string \<Rightarrow> QSaveFilePrivate \<Rightarrow> World \<Rightarrow> bool \<times> QSaveFilePrivate \<times> World" where
  "openTemporary env mode existingFile d w =
     (let perm = (if QFileInfo_exists w existingFile then 384 else 438);
          (ok, fe, w1) =
            QTemporaryFileEngine_open env (mode \<union> {Unbuffered}) perm
              (QTemporaryFileEngine_create (finalFileName d)) w;
          d1 = d\<lparr>fileEngine := Some fe\<rparr>
      in if \<not> ok
         then (let err = engineError fe;
                   eacces = (case tmpOpenFailure env of Some (_, _, b) \<Rightarrow> b | None \<Rightarrow> False)
               in if Q_OS_UNIX (platform env) \<and> directWriteFallback d1 \<and> err = OpenError \<and> eacces
                  then (let (ok2, d2, w2) = openDirectly env mode d1 w1
                        in if ok2 then (True, d2, w2)
                           else (let err2 = engineError (the (fileEngine d2));
                                     err3 = (if err2 = UnspecifiedError then OpenError else err2)
                                 in (False,
                                     (setError err3 (engineErrorString (the (fileEngine d2))) d2)
                                       \<lparr>fileEngine := None\<rparr>,
                                     w2)))
                  else (let err3 = (if err = UnspecifiedError then OpenError else err)
                        in (False,
                            (setError err3 (engineErrorString fe) d1)\<lparr>fileEngine := None\<rparr>,
                            w1)))
         else (let d2 = QFileDevice_open mode (d1\<lparr>useTemporaryFile := True\<rparr>)
               in if QFileInfo_exists w existingFile
                  then (let (_, d3, w3) = setPermissions (QFileInfo_permissions w existingFile) d2 w1
                        in (True, d3, w3))
                  else (True, d2, w1)))"

text \<open>\<^verbatim>\<open>bool QSaveFile::open(OpenMode mode)\<close>.\<close>

definition QSaveFile_open ::
  "Environment \<Rightarrow> OpenMode \<Rightarrow> QSaveFilePrivate \<Rightarrow> World \<Rightarrow> bool \<times> QSaveFilePrivate \<times> World" where
  "QSaveFile_open env mode d w =
     (if isOpen d then (False, d, warn (WarnAlreadyOpen (fileName d)) w)
      else
        (let d1 = (unsetError d)\<lparr>writeError := NoError\<rparr>
         in if mode \<inter> {ReadOnly, WriteOnly} = {} then (False, d1, warn WarnModeNotSpecified w)
            else if mode \<inter> {ReadOnly, Append, NewOnly, ExistingOnly} \<noteq> {}
            then (False, d1, warn (WarnUnsupportedMode mode) w)
            else if QFileInfo_exists w (fileName d1) \<and> \<not> QFileInfo_isWritable w (fileName d1)
            then (False,
                  (setError WriteError
                     (''Existing file '' @ fileName d1 @ '' is not writable'') d1)
                    \<lparr>writeError := WriteError\<rparr>,
                  w)
            else if QFileInfo_isDir w (fileName d1)
            then (False,
                  (setError WriteError ''Filename refers to a directory'' d1)
                    \<lparr>writeError := WriteError\<rparr>,
                  w)
            else
              (let (existingFile, final) = resolveSymLinks w (fileName d1);
                   d2 = d1\<lparr>finalFileName := final\<rparr>
               in if requiresDirectWrite (platform env) d2
                  then openRequiringDirectWrite env mode d2 w
                  else openTemporary env mode existingFile d2 w)))"

subsection \<open>close, commit, cancelWriting, writeData\<close>

text \<open>\<^verbatim>\<open>void QSaveFile::close()\<close>: \<^verbatim>\<open>qFatal\<close> ends the program.\<close>

definition QSaveFile_close :: "QSaveFilePrivate \<Rightarrow> World \<Rightarrow> (QSaveFilePrivate \<times> World) Outcome" where
  "QSaveFile_close d w = Fatal ''QSaveFile::close called''"

text \<open>
  \<^verbatim>\<open>bool QSaveFile::commit()\<close>. The engine moved out of the session
  (\<^verbatim>\<open>fe\<close>) is the one tested at the entry, so \<^verbatim>\<open>Q_ASSERT(fe)\<close> holds.
\<close>

definition QSaveFile_commit ::
  "Environment \<Rightarrow> QSaveFilePrivate \<Rightarrow> World \<Rightarrow> bool \<times> QSaveFilePrivate \<times> World" where
  "QSaveFile_commit env d w =
     (case fileEngine d of
        None \<Rightarrow> (False, d, w)
      | Some _ \<Rightarrow>
          if \<not> isOpen d then (False, d, warn (WarnCommitNotOpen (fileName d)) w)
          else
            (let (d1, w1) = QFileDevice_close d w;
                 fe = the (fileEngine d1);
                 d2 = d1\<lparr>fileEngine := None\<rparr>;
                 w2 = snd (engine_syncToDisk fe w1)
             in if useTemporaryFile d2
                then (if writeError d2 \<noteq> NoError
                      then (False, d2\<lparr>writeError := NoError\<rparr>, snd (engine_remove fe w2))
                      else (let (ok, fe', w3) = engine_renameOverwrite env (finalFileName d2) fe w2
                            in if \<not> ok
                               then (False,
                                     setError (engineError fe') (engineErrorString fe') d2,
                                     snd (engine_remove fe' w3))
                               else (True, d2, w3)))
                else (True, d2, w2)))"

text \<open>\<^verbatim>\<open>void QSaveFile::cancelWriting()\<close>.\<close>

definition QSaveFile_cancelWriting :: "QSaveFilePrivate \<Rightarrow> QSaveFilePrivate" where
  "QSaveFile_cancelWriting d =
     (if \<not> isOpen d then d
      else (setError WriteError ''Writing canceled by application'' d)\<lparr>writeError := WriteError\<rparr>)"

text \<open>\<^verbatim>\<open>qint64 QSaveFile::writeData(const char *data, qint64 len)\<close>.\<close>

definition QSaveFile_writeData ::
  "Environment \<Rightarrow> string \<Rightarrow> QSaveFilePrivate \<Rightarrow> World \<Rightarrow> int \<times> QSaveFilePrivate \<times> World" where
  "QSaveFile_writeData env data d w =
     (if writeError d \<noteq> NoError then (- 1, d, w)
      else (let (ret, d1, w1) = QFileDevice_writeData env data d w
            in (ret, if error d1 \<noteq> NoError then d1\<lparr>writeError := error d1\<rparr> else d1, w1)))"

section \<open>Sessions\<close>

text \<open>
  What a caller does between \<^verbatim>\<open>open()\<close> and \<^verbatim>\<open>commit()\<close>: a sequence of
  \<^verbatim>\<open>write()\<close> and \<^verbatim>\<open>cancelWriting()\<close> calls. Each write comes with the
  surroundings it meets, so a write may fail after earlier ones went through. \<open>run\<close>
  returns the results of the writes, in order, and the session and world after the last
  call.
\<close>

datatype Call = Write Environment string | CancelWriting

fun run :: "Call list \<Rightarrow> QSaveFilePrivate \<Rightarrow> World \<Rightarrow> int list \<times> QSaveFilePrivate \<times> World" where
  "run [] d w = ([], d, w)"
| "run (Write env data # cs) d w =
     (let (r, d1, w1) = QSaveFile_writeData env data d w;
          (rs, d2, w2) = run cs d1 w1
      in (r # rs, d2, w2))"
| "run (CancelWriting # cs) d w = run cs (QSaveFile_cancelWriting d) w"

text \<open>The name under which \<^verbatim>\<open>open()\<close> creates the staging file.\<close>

definition stagingPath :: "Environment \<Rightarrow> World \<Rightarrow> QSaveFilePrivate \<Rightarrow> string" where
  "stagingPath env w d = snd (resolveSymLinks w (fileName d)) @ ''.'' @ tmpSuffix env"

text \<open>An open session in staging mode, whose staging file is \<open>t\<close>.\<close>

definition staged :: "string \<Rightarrow> QSaveFilePrivate \<Rightarrow> World \<Rightarrow> bool" where
  "staged t d w \<longleftrightarrow>
     isOpen d \<and> useTemporaryFile d \<and> files w t \<noteq> None \<and>
     (case fileEngine d of None \<Rightarrow> False | Some fe \<Rightarrow> enginePath fe = t)"

text \<open>The path reached from \<open>p\<close> after \<open>k\<close> hops along symbolic links.\<close>

definition hop :: "World \<Rightarrow> nat \<Rightarrow> string \<Rightarrow> string" where
  "hop w k p = (QFileInfo_symLinkTarget w ^^ k) p"

section \<open>Example inputs\<close>

definition exampleEnv :: Environment where
  "exampleEnv =
     \<lparr>platform = Unix, umask = 18, tmpSuffix = ''AbCdEf'', tmpOpenFailure = None,
      directOpenFailure = None, writeFailure = None, renameFailure = None\<rparr>"

text \<open>The disk is full: the engine's write fails.\<close>

definition diskFullEnv :: Environment where
  "diskFullEnv = exampleEnv\<lparr>writeFailure := Some (ResourceError, ''No space left on device'')\<rparr>"

text \<open>The rename onto the destination fails.\<close>

definition renameFailEnv :: Environment where
  "renameFailEnv = exampleEnv\<lparr>renameFailure := Some (RenameError, ''Permission denied'')\<rparr>"

text \<open>The directory is read-only: no temporary file can be created in it.\<close>

definition readOnlyDirEnv :: Environment where
  "readOnlyDirEnv = exampleEnv\<lparr>tmpOpenFailure := Some (OpenError, ''Permission denied'', True)\<rparr>"

definition exampleWorld :: World where
  "exampleWorld =
     \<lparr>files = [''/tmp/doc.txt'' \<mapsto> \<lparr>isDirectory = False, isWritable = True, symLink = None,
                                   permissionBits = 416, content = ''old''\<rparr>,
               ''/tmp/dir'' \<mapsto> \<lparr>isDirectory = True, isWritable = True, symLink = None,
                               permissionBits = 493, content = []\<rparr>,
               ''/tmp/readonly.txt'' \<mapsto> \<lparr>isDirectory = False, isWritable = False,
                                        symLink = None, permissionBits = 292, content = ''kept''\<rparr>],
      calls = [], warnings = []\<rparr>"

definition exampleSession :: QSaveFilePrivate where
  "exampleSession = QSaveFile ''/tmp/doc.txt''"

definition fallbackSession :: QSaveFilePrivate where
  "fallbackSession = setDirectWriteFallback True (QSaveFile ''/tmp/doc.txt'')"

text \<open>The example session after \<^verbatim>\<open>open(WriteOnly)\<close>, in staging mode.\<close>

definition stagedOpened :: "bool \<times> QSaveFilePrivate \<times> World" where
  "stagedOpened = QSaveFile_open exampleEnv {WriteOnly} exampleSession exampleWorld"

text \<open>The session with the fallback enabled after \<^verbatim>\<open>open(WriteOnly)\<close> in a read-only directory.\<close>

definition directOpened :: "bool \<times> QSaveFilePrivate \<times> World" where
  "directOpened = QSaveFile_open readOnlyDirEnv {WriteOnly} fallbackSession exampleWorld"

text \<open>
  A chain of \<open>n\<close> symbolic links: the path of \<open>k\<close> letters \<open>l\<close> links to the path of
  \<open>k + 1\<close> letters for \<open>1 \<le> k \<le> n\<close>, and the path of \<open>n + 1\<close> letters is a regular file.
\<close>

definition linkChain :: "nat \<Rightarrow> World" where
  "linkChain n =
     \<lparr>files = (\<lambda>p. if p = [] \<or> p \<noteq> replicate (length p) (CHR ''l'') then None
                    else if length p \<le> n
                    then Some \<lparr>isDirectory = False, isWritable = True,
                               symLink = Some (CHR ''l'' # p), permissionBits = 511, content = []\<rparr>
                    else if length p = Suc n then Some (newEntry 420)
                    else None),
      calls = [], warnings = []\<rparr>"

text \<open>The staged example session after one write, after a write that met a full disk, and the
  direct-write session after the same.\<close>

definition stagedWritten :: "int list \<times> QSaveFilePrivate \<times> World" where
  "stagedWritten = run [Write exampleEnv ''hello''] (fst (snd stagedOpened)) (snd (snd stagedOpened))"

definition stagedDiskFull :: "int list \<times> QSaveFilePrivate \<times> World" where
  "stagedDiskFull =
     run [Write exampleEnv ''hello'', Write diskFullEnv ''world'']
       (fst (snd stagedOpened)) (snd (snd stagedOpened))"

definition directDiskFull :: "int list \<times> QSaveFilePrivate \<times> World" where
  "directDiskFull =
     run [Write exampleEnv ''hello'', Write diskFullEnv ''world'']
       (fst (snd directOpened)) (snd (snd directOpened))"


text \<open>A symbolic link that points to itself.\<close>

definition loopWorld :: World where
  "loopWorld =
     \<lparr>files = [''/tmp/loop'' \<mapsto> \<lparr>isDirectory = False, isWritable = True,
                                symLink = Some ''/tmp/loop'', permissionBits = 511, content = []\<rparr>],
      calls = [], warnings = []\<rparr>"

text \<open>A session for a path where nothing exists yet, after \<^verbatim>\<open>open(WriteOnly)\<close> and after one write.\<close>

definition newOpened :: "bool \<times> QSaveFilePrivate \<times> World" where
  "newOpened = QSaveFile_open exampleEnv {WriteOnly} (QSaveFile ''/tmp/new.txt'') exampleWorld"

definition newWritten :: "int list \<times> QSaveFilePrivate \<times> World" where
  "newWritten = run [Write exampleEnv ''hello''] (fst (snd newOpened)) (snd (snd newOpened))"

text \<open>The direct-write session after \<^verbatim>\<open>cancelWriting()\<close> and \<^verbatim>\<open>commit()\<close>.\<close>

definition directCancelled :: "bool \<times> QSaveFilePrivate \<times> World" where
  "directCancelled =
     QSaveFile_commit exampleEnv (QSaveFile_cancelWriting (fst (snd directOpened)))
       (snd (snd directOpened))"

section \<open>Properties\<close>

subsection \<open>Auxiliary facts\<close>

lemma resolveSymLinks_cases:
  "resolveSymLinks w p = (ef, fin) \<Longrightarrow> fin = ef \<or> (fin = p \<and> QFileInfo_isSymLink w p)"
  by (auto simp add: resolveSymLinks_def split: if_splits prod.splits)

lemma openDirectly_useTemporaryFile:
  "openDirectly env mode d w = (True, d1, w1) \<Longrightarrow> \<not> useTemporaryFile d1"
  by (auto simp add: openDirectly_def QFileDevice_open_def Let_def split: prod.splits if_splits)

lemma openTemporary_staging:
  assumes "openTemporary env mode ef d w = (True, d1, w1)" and "useTemporaryFile d1"
  shows "tmpOpenFailure env = None"
    and "files w (finalFileName d @ ''.'' @ tmpSuffix env) = None"
    and "d1 = d\<lparr>fileEngine := Some ((QTemporaryFileEngine_create (finalFileName d))
                                      \<lparr>enginePath := finalFileName d @ ''.'' @ tmpSuffix env\<rparr>),
                 useTemporaryFile := True, openMode := mode\<rparr>"
    and "w1 = w\<lparr>calls := calls w @
                    CallOpenTemporary (finalFileName d) (if QFileInfo_exists w ef then 384 else 438)
                      (mode \<union> {Unbuffered})
                    # (if QFileInfo_exists w ef
                       then [CallSetPermissions (finalFileName d @ ''.'' @ tmpSuffix env)
                               (QFileInfo_permissions w ef)]
                       else []),
                 files := (files w)(finalFileName d @ ''.'' @ tmpSuffix env \<mapsto>
                    newEntry (if QFileInfo_exists w ef then QFileInfo_permissions w ef
                              else and 438 (not (umask env))))\<rparr>"
  using assms
  by (auto simp add: openTemporary_def QTemporaryFileEngine_open_def QTemporaryFileEngine_create_def Let_def logCall_def
      QFileDevice_open_def setPermissions_def engine_setPermissions_def newEntry_def
      dest: openDirectly_useTemporaryFile
      split: option.splits if_splits prod.splits)


lemma openRequiringDirectWrite_useTemporaryFile:
  "openRequiringDirectWrite env mode d w = (True, d1, w1) \<Longrightarrow> \<not> useTemporaryFile d1"
  by (auto simp add: openRequiringDirectWrite_def Let_def
      dest: openDirectly_useTemporaryFile split: prod.splits if_splits)

lemma open_staging:
  assumes "QSaveFile_open env mode d w = (True, d1, w1)" and "useTemporaryFile d1"
  shows "\<not> isOpen d"
    and "mode \<inter> {ReadOnly, WriteOnly} \<noteq> {}"
    and "openTemporary env mode (fst (resolveSymLinks w (fileName d)))
           (d\<lparr>error := NoError, errorString := [], writeError := NoError,
              finalFileName := snd (resolveSymLinks w (fileName d))\<rparr>) w = (True, d1, w1)"
  using assms
  by (auto simp add: QSaveFile_open_def Let_def unsetError_def setError_def
      dest: openRequiringDirectWrite_useTemporaryFile split: prod.splits if_splits)

lemma open_staged:
  assumes "QSaveFile_open env mode d w = (True, d1, w1)" and "useTemporaryFile d1"
  shows "staged (stagingPath env w d) d1 w1"
    and "files w (stagingPath env w d) = None"
    and "\<forall>p. p \<noteq> stagingPath env w d \<longrightarrow> files w1 p = files w p"
    and "finalFileName d1 = snd (resolveSymLinks w (fileName d))"
    and "writeError d1 = NoError"
proof -
  note o = open_staging [OF assms]
  note t = openTemporary_staging [OF o(3) assms(2)]
  from o(2) have m: "mode \<noteq> {}" by auto
  show "staged (stagingPath env w d) d1 w1"
    using m by (simp add: t(3) t(4) staged_def stagingPath_def isOpen_def)
  show "files w (stagingPath env w d) = None"
    using t(2) by (simp add: stagingPath_def)
  show "\<forall>p. p \<noteq> stagingPath env w d \<longrightarrow> files w1 p = files w p"
    by (simp add: t(4) stagingPath_def)
  show "finalFileName d1 = snd (resolveSymLinks w (fileName d))"
    by (simp add: t(3))
  show "writeError d1 = NoError"
    by (simp add: t(3))
qed

lemma writeData_latched:
  "writeError d \<noteq> NoError \<Longrightarrow> QSaveFile_writeData env data d w = (- 1, d, w)"
  by (simp add: QSaveFile_writeData_def)

lemma cancelWriting_latched:
  "writeError d \<noteq> NoError \<Longrightarrow> writeError (QSaveFile_cancelWriting d) \<noteq> NoError"
  by (simp add: QSaveFile_cancelWriting_def setError_def)

lemma cancelWriting_frame:
  "fileEngine (QSaveFile_cancelWriting d) = fileEngine d"
  "openMode (QSaveFile_cancelWriting d) = openMode d"
  "useTemporaryFile (QSaveFile_cancelWriting d) = useTemporaryFile d"
  "finalFileName (QSaveFile_cancelWriting d) = finalFileName d"
  "fileName (QSaveFile_cancelWriting d) = fileName d"
  by (simp_all add: QSaveFile_cancelWriting_def setError_def)

lemma run_latched:
  "writeError d \<noteq> NoError \<Longrightarrow> run cs d w = (rs, d', w') \<Longrightarrow>
     writeError d' \<noteq> NoError \<and> w' = w \<and> (\<forall>r \<in> set rs. r = - 1) \<and>
     fileEngine d' = fileEngine d \<and> openMode d' = openMode d \<and>
     useTemporaryFile d' = useTemporaryFile d \<and> finalFileName d' = finalFileName d"
proof (induction cs d w arbitrary: rs rule: run.induct)
  case (1 d w)
  then show ?case by simp
next
  case (2 env data cs d w)
  from "2.prems"(1) have wd: "QSaveFile_writeData env data d w = (- 1, d, w)"
    by (rule writeData_latched)
  from "2.prems"(2) wd obtain rs' where r: "run cs d w = (rs', d', w')" and rs: "rs = - 1 # rs'"
    by (auto split: prod.splits)
  from "2.IH" [OF refl wd [symmetric] refl "2.prems"(1) r] rs show ?case by simp
next
  case (3 cs d w)
  from "3.prems"(2) have r: "run cs (QSaveFile_cancelWriting d) w = (rs, d', w')" by simp
  from "3.IH" [OF cancelWriting_latched [OF "3.prems"(1)] r] show ?case
    by (simp add: cancelWriting_frame)
qed

lemma cancelWriting_staged:
  "staged t d w \<Longrightarrow> staged t (QSaveFile_cancelWriting d) w"
  by (simp add: staged_def isOpen_def cancelWriting_frame)

lemma writeData_ok:
  assumes "writeError d = NoError" and "fileEngine d = Some fe" and "writeFailure env = None"
  shows "QSaveFile_writeData env data d w =
           (int (length data), d\<lparr>error := NoError, errorString := []\<rparr>,
            w\<lparr>calls := calls w @ [CallWrite (enginePath fe) data],
              files := (case files w (enginePath fe) of
                          None \<Rightarrow> files w
                        | Some e \<Rightarrow> (files w)(enginePath fe \<mapsto> e\<lparr>content := content e @ data\<rparr>))\<rparr>)"
  using assms
  by (simp add: QSaveFile_writeData_def QFileDevice_writeData_def engine_write_def logCall_def
      unsetError_def setError_def Let_def split: option.splits)

lemma writeData_failed:
  assumes "writeError d = NoError" and "fileEngine d = Some fe"
    and "writeFailure env = Some (err, msg)"
  shows "QSaveFile_writeData env data d w =
           (- 1,
            d\<lparr>error := (if err = UnspecifiedError then WriteError else err), errorString := msg,
              fileEngine := Some (engineFail err msg fe),
              writeError := (if err = UnspecifiedError then WriteError else err)\<rparr>,
            w\<lparr>calls := calls w @ [CallWrite (enginePath fe) data]\<rparr>)"
  using assms
  by (simp add: QSaveFile_writeData_def QFileDevice_writeData_def engine_write_def logCall_def
      unsetError_def setError_def engineFail_def Let_def)

lemma writeData_staged:
  assumes "staged t d w" and "QSaveFile_writeData env data d w = (r, d', w')"
  shows "staged t d' w' \<and> finalFileName d' = finalFileName d \<and>
         (\<forall>p. p \<noteq> t \<longrightarrow> files w' p = files w p) \<and>
         map_option permissionBits (files w' t) = map_option permissionBits (files w t)"
proof -
  from assms(1) obtain fe e where fe: "fileEngine d = Some fe" "enginePath fe = t"
    and e: "files w t = Some e" and o: "openMode d \<noteq> {}" "useTemporaryFile d"
    by (auto simp add: staged_def isOpen_def split: option.splits)
  show ?thesis
  proof (cases "writeError d = NoError")
    case False
    with assms(2) have "d' = d" "w' = w" by (simp_all add: writeData_latched)
    with assms(1) show ?thesis by simp
  next
    case True
    show ?thesis
    proof (cases "writeFailure env")
      case None
      from assms(2) show ?thesis
        unfolding writeData_ok [OF True fe(1) None]
        using fe e o by (auto simp add: staged_def isOpen_def)
    next
      case (Some f)
      obtain err msg where f: "f = (err, msg)" by (cases f)
      from assms(2) show ?thesis
        unfolding writeData_failed [OF True fe(1) Some [unfolded f]]
        using fe e o by (auto simp add: staged_def isOpen_def engineFail_def)
    qed
  qed
qed


lemma run_staged:
  "staged t d w \<Longrightarrow> run cs d w = (rs, d', w') \<Longrightarrow>
     staged t d' w' \<and> finalFileName d' = finalFileName d \<and>
     (\<forall>p. p \<noteq> t \<longrightarrow> files w' p = files w p) \<and>
     map_option permissionBits (files w' t) = map_option permissionBits (files w t)"
proof (induction cs d w arbitrary: rs rule: run.induct)
  case (1 d w)
  then show ?case by simp
next
  case (2 env data cs d w)
  obtain r d1 w1 where wd: "QSaveFile_writeData env data d w = (r, d1, w1)"
    by (cases "QSaveFile_writeData env data d w") auto
  from "2.prems"(2) wd obtain rs' where r: "run cs d1 w1 = (rs', d', w')"
    by (auto split: prod.splits)
  note s = writeData_staged [OF "2.prems"(1) wd]
  note i = "2.IH" [OF refl wd [symmetric] refl conjunct1 [OF s] r]
  from i s show ?case by simp
next
  case (3 cs d w)
  from "3.prems"(2) have r: "run cs (QSaveFile_cancelWriting d) w = (rs, d', w')" by simp
  from "3.IH" [OF cancelWriting_staged [OF "3.prems"(1)] r] show ?case
    by (simp add: cancelWriting_frame)
qed

lemma commit_latched:
  assumes "isOpen d" and "fileEngine d = Some fe" and "useTemporaryFile d"
    and "writeError d \<noteq> NoError"
  shows "QSaveFile_commit env d w =
           (False, d\<lparr>openMode := {}, fileEngine := None, writeError := NoError\<rparr>,
            w\<lparr>calls := calls w @ [CallClose (enginePath fe), CallSyncToDisk (enginePath fe),
                                   CallRemove (enginePath fe)],
              files := (files w)(enginePath fe := None)\<rparr>)"
  using assms
  by (simp add: QSaveFile_commit_def QFileDevice_close_def engine_close_def
      engine_syncToDisk_def engine_remove_def logCall_def Let_def)

lemma commit_rename_failed:
  assumes "isOpen d" and "fileEngine d = Some fe" and "useTemporaryFile d"
    and "writeError d = NoError" and "renameFailure env = Some (err, msg)"
  shows "QSaveFile_commit env d w =
           (False, d\<lparr>openMode := {}, fileEngine := None, error := err, errorString := msg\<rparr>,
            w\<lparr>calls := calls w @ [CallClose (enginePath fe), CallSyncToDisk (enginePath fe),
                                   CallRenameOverwrite (enginePath fe) (finalFileName d),
                                   CallRemove (enginePath fe)],
              files := (files w)(enginePath fe := None)\<rparr>)"
  using assms
  by (simp add: QSaveFile_commit_def QFileDevice_close_def engine_close_def
      engine_syncToDisk_def engine_remove_def engine_renameOverwrite_def engineFail_def
      setError_def logCall_def Let_def)

lemma commit_renamed:
  assumes "isOpen d" and "fileEngine d = Some fe" and "useTemporaryFile d"
    and "writeError d = NoError" and "renameFailure env = None"
    and "files w (enginePath fe) = Some e"
  shows "QSaveFile_commit env d w =
           (True, d\<lparr>openMode := {}, fileEngine := None\<rparr>,
            w\<lparr>calls := calls w @ [CallClose (enginePath fe), CallSyncToDisk (enginePath fe),
                                   CallRenameOverwrite (enginePath fe) (finalFileName d)],
              files := (files w)(enginePath fe := None, finalFileName d \<mapsto> e)\<rparr>)"
  using assms
  by (simp add: QSaveFile_commit_def QFileDevice_close_def engine_close_def
      engine_syncToDisk_def engine_renameOverwrite_def logCall_def Let_def)

lemma commit_direct:
  assumes "isOpen d" and "fileEngine d = Some fe" and "\<not> useTemporaryFile d"
  shows "QSaveFile_commit env d w =
           (True, d\<lparr>openMode := {}, fileEngine := None\<rparr>,
            w\<lparr>calls := calls w @ [CallClose (enginePath fe), CallSyncToDisk (enginePath fe)]\<rparr>)"
  using assms
  by (simp add: QSaveFile_commit_def QFileDevice_close_def engine_close_def
      engine_syncToDisk_def logCall_def Let_def)

lemma commit_staged_False:
  assumes "staged t d w" and "QSaveFile_commit env d w = (False, d', w')"
  shows "files w' = (files w)(t := None) \<and> CallRemove t \<in> set (calls w') \<and>
         (writeError d = NoError \<longrightarrow> renameFailure env = Some (error d', errorString d'))"
proof -
  from assms(1) obtain fe e where fe: "fileEngine d = Some fe" "enginePath fe = t"
    and e: "files w t = Some e" and o: "isOpen d" "useTemporaryFile d"
    by (auto simp add: staged_def split: option.splits)
  show ?thesis
  proof (cases "writeError d = NoError")
    case False
    from assms(2) show ?thesis
      unfolding commit_latched [OF o(1) fe(1) o(2) False] using fe False by auto
  next
    case True
    show ?thesis
    proof (cases "renameFailure env")
      case None
      from assms(2) e fe show ?thesis
        by (simp add: commit_renamed [OF o(1) fe(1) o(2) True None])
    next
      case (Some f)
      obtain err msg where f: "f = (err, msg)" by (cases f)
      from assms(2) show ?thesis
        unfolding commit_rename_failed [OF o(1) fe(1) o(2) True Some [unfolded f]]
        using fe Some f by auto
    qed
  qed
qed

lemma commit_staged_True:
  assumes "staged t d w" and "QSaveFile_commit env d w = (True, d', w')"
  shows "files w' = (files w)(t := None, finalFileName d := files w t) \<and>
         writeError d = NoError \<and> renameFailure env = None"
proof -
  from assms(1) obtain fe e where fe: "fileEngine d = Some fe" "enginePath fe = t"
    and e: "files w t = Some e" and o: "isOpen d" "useTemporaryFile d"
    by (auto simp add: staged_def split: option.splits)
  show ?thesis
  proof (cases "writeError d = NoError")
    case False
    from assms(2) show ?thesis
      by (simp add: commit_latched [OF o(1) fe(1) o(2) False])
  next
    case True
    show ?thesis
    proof (cases "renameFailure env")
      case None
      from assms(2) show ?thesis
        unfolding commit_renamed [OF o(1) fe(1) o(2) True None e [folded fe(2)]]
        using fe e True None by auto
    next
      case (Some f)
      obtain err msg where f: "f = (err, msg)" by (cases f)
      from assms(2) show ?thesis
        by (simp add: commit_rename_failed [OF o(1) fe(1) o(2) True Some [unfolded f]])
    qed
  qed
qed


lemma openDirectly_True:
  "openDirectly env mode d w = (True, d1, w1) \<Longrightarrow>
     openMode d1 = mode \<and> fileEngine d1 \<noteq> None \<and> finalFileName d1 = finalFileName d"
  by (auto simp add: openDirectly_def QFileDevice_open_def Let_def split: prod.splits if_splits)

lemma openRequiringDirectWrite_True:
  "openRequiringDirectWrite env mode d w = (True, d1, w1) \<Longrightarrow>
     openMode d1 = mode \<and> fileEngine d1 \<noteq> None \<and> finalFileName d1 = finalFileName d"
  by (auto simp add: openRequiringDirectWrite_def Let_def
      dest: openDirectly_True split: prod.splits if_splits)

lemma openTemporary_True:
  assumes "openTemporary env mode ef d w = (True, d1, w1)"
  shows "openMode d1 = mode \<and> fileEngine d1 \<noteq> None \<and> finalFileName d1 = finalFileName d"
proof (cases "useTemporaryFile d1")
  case True
  show ?thesis by (subst (1 2 3) openTemporary_staging(3) [OF assms True]) simp
next
  case False
  with assms show ?thesis
    by (auto simp add: openTemporary_def QTemporaryFileEngine_open_def
        QTemporaryFileEngine_create_def Let_def logCall_def QFileDevice_open_def
        setPermissions_def engine_setPermissions_def
        dest!: openDirectly_True split: prod.splits if_splits option.splits)
qed

lemma open_True:
  assumes "QSaveFile_open env mode d w = (True, d1, w1)"
  shows "isOpen d1 \<and> fileEngine d1 \<noteq> None \<and>
         finalFileName d1 = snd (resolveSymLinks w (fileName d))"
  using assms
  by (auto simp add: QSaveFile_open_def Let_def unsetError_def setError_def isOpen_def
      dest!: openRequiringDirectWrite_True openTemporary_True split: prod.splits if_splits)

lemma writeData_frame:
  "QSaveFile_writeData env data d w = (r, d', w') \<Longrightarrow>
     openMode d' = openMode d \<and> useTemporaryFile d' = useTemporaryFile d \<and>
     (fileEngine d' = None \<longleftrightarrow> fileEngine d = None)"
  by (auto simp add: QSaveFile_writeData_def QFileDevice_writeData_def unsetError_def
      setError_def Let_def split: prod.splits if_splits option.splits)

lemma run_frame:
  "run cs d w = (rs, d', w') \<Longrightarrow>
     openMode d' = openMode d \<and> useTemporaryFile d' = useTemporaryFile d \<and>
     (fileEngine d' = None \<longleftrightarrow> fileEngine d = None)"
proof (induction cs d w arbitrary: rs rule: run.induct)
  case (1 d w)
  then show ?case by simp
next
  case (2 env data cs d w)
  obtain r d1 w1 where wd: "QSaveFile_writeData env data d w = (r, d1, w1)"
    by (cases "QSaveFile_writeData env data d w") auto
  from "2.prems" wd obtain rs' where r: "run cs d1 w1 = (rs', d', w')"
    by (auto split: prod.splits)
  from "2.IH" [OF refl wd [symmetric] refl r] writeData_frame [OF wd] show ?case by simp
next
  case (3 cs d w)
  from "3.prems" have r: "run cs (QSaveFile_cancelWriting d) w = (rs, d', w')" by simp
  from "3.IH" [OF r] show ?case by (simp add: cancelWriting_frame)
qed

lemma cancelWriting_open:
  "isOpen d \<Longrightarrow>
     QSaveFile_cancelWriting d =
       d\<lparr>error := WriteError, errorString := ''Writing canceled by application'',
         writeError := WriteError\<rparr>"
  by (simp add: QSaveFile_cancelWriting_def setError_def)


lemma files_restored:
  assumes "files w t = None"
    and "\<forall>p. p \<noteq> t \<longrightarrow> files w1 p = files w p"
    and "\<forall>p. p \<noteq> t \<longrightarrow> files w2 p = files w1 p"
  shows "(files w2)(t := None) = files w"
  using assms by (auto simp add: fun_eq_iff)


lemma run_append:
  "run cs1 d w = (rs1, d1, w1) \<Longrightarrow> run cs2 d1 w1 = (rs2, d2, w2) \<Longrightarrow>
     run (cs1 @ cs2) d w = (rs1 @ rs2, d2, w2)"
proof (induction cs1 d w arbitrary: rs1 rule: run.induct)
  case (1 d w)
  then show ?case by simp
next
  case (2 env data cs d w)
  obtain r d' w' where wd: "QSaveFile_writeData env data d w = (r, d', w')"
    by (cases "QSaveFile_writeData env data d w") auto
  from "2.prems"(1) wd obtain rs' where r: "run cs d' w' = (rs', d1, w1)" and rs: "rs1 = r # rs'"
    by (auto split: prod.splits)
  from "2.IH" [OF refl wd [symmetric] refl r "2.prems"(2)] wd rs show ?case by simp
next
  case (3 cs d w)
  then show ?case by simp
qed

lemma session_commit_False:
  assumes "QSaveFile_open envO mode d w = (True, d1, w1)" and "useTemporaryFile d1"
    and "run cs d1 w1 = (rs, d2, w2)"
    and "QSaveFile_commit envC d2 w2 = (False, d3, w3)"
  shows "files w3 = files w
         \<and> files w3 (stagingPath envO w d) = None
         \<and> CallRemove (stagingPath envO w d) \<in> set (calls w3)
         \<and> (writeError d2 = NoError \<longrightarrow> renameFailure envC = Some (error d3, errorString d3))"
proof -
  note o = open_staged [OF assms(1,2)]
  note r = run_staged [OF o(1) assms(3)]
  note c = commit_staged_False [OF conjunct1 [OF r] assms(4)]
  from c have f: "files w3 = (files w2)(stagingPath envO w d := None)" by simp
  from r have r3: "\<forall>p. p \<noteq> stagingPath envO w d \<longrightarrow> files w2 p = files w1 p" by blast
  have "files w3 = files w"
    unfolding f by (rule files_restored [OF o(2) o(3) r3])
  with o(2) c show ?thesis by simp
qed

lemma open_staged_creation:
  assumes "QSaveFile_open env mode d w = (True, d1, w1)" and "useTemporaryFile d1"
  shows "calls w1 = calls w @
           CallOpenTemporary (finalFileName d1)
             (if QFileInfo_exists w (fst (resolveSymLinks w (fileName d))) then 384 else 438)
             (mode \<union> {Unbuffered})
           # (if QFileInfo_exists w (fst (resolveSymLinks w (fileName d)))
              then [CallSetPermissions (stagingPath env w d)
                      (QFileInfo_permissions w (fst (resolveSymLinks w (fileName d))))]
              else [])"
    and "files w1 (stagingPath env w d) =
           Some (newEntry (if QFileInfo_exists w (fst (resolveSymLinks w (fileName d)))
                           then QFileInfo_permissions w (fst (resolveSymLinks w (fileName d)))
                           else and 438 (not (umask env))))"
proof -
  note o = open_staging [OF assms]
  note t = openTemporary_staging [OF o(3) assms(2)]
  show "calls w1 = calls w @
           CallOpenTemporary (finalFileName d1)
             (if QFileInfo_exists w (fst (resolveSymLinks w (fileName d))) then 384 else 438)
             (mode \<union> {Unbuffered})
           # (if QFileInfo_exists w (fst (resolveSymLinks w (fileName d)))
              then [CallSetPermissions (stagingPath env w d)
                      (QFileInfo_permissions w (fst (resolveSymLinks w (fileName d))))]
              else [])"
    by (simp add: t(3) t(4) stagingPath_def)
  show "files w1 (stagingPath env w d) =
           Some (newEntry (if QFileInfo_exists w (fst (resolveSymLinks w (fileName d)))
                           then QFileInfo_permissions w (fst (resolveSymLinks w (fileName d)))
                           else and 438 (not (umask env))))"
    by (simp add: t(4) stagingPath_def)
qed

lemma resolveSymLinks_destination:
  assumes "files w (snd (resolveSymLinks w p)) = None
           \<or> (\<exists>e. files w (snd (resolveSymLinks w p)) = Some e \<and> symLink e = None)"
  shows "fst (resolveSymLinks w p) = snd (resolveSymLinks w p)"
proof -
  obtain ef fin where r: "resolveSymLinks w p = (ef, fin)"
    by (cases "resolveSymLinks w p") auto
  from resolveSymLinks_cases [OF r] assms r show ?thesis
    by (auto simp add: QFileInfo_isSymLink_def)
qed

lemma hop_Suc: "hop w (Suc k) p = hop w k (QFileInfo_symLinkTarget w p)"
  by (simp add: hop_def funpow_swap1)

lemma followSymLinks_stops:
  "\<forall>k<n. QFileInfo_isSymLink w (hop w k p) \<Longrightarrow> \<not> QFileInfo_isSymLink w (hop w n p) \<Longrightarrow>
     n + 2 \<le> m \<Longrightarrow> followSymLinks w m p = (m - 1 - n, hop w n p)"
proof (induction n arbitrary: m p)
  case 0
  then obtain m' where m: "m = Suc m'" by (cases m) auto
  from 0 show ?case by (simp add: m hop_def)
next
  case (Suc n)
  then obtain m' where m: "m = Suc m'" by (cases m) auto
  from Suc.prems(1) have l: "QFileInfo_isSymLink w p" by (auto simp add: hop_def)
  from Suc.prems(1) have a: "\<forall>k<n. QFileInfo_isSymLink w (hop w k (QFileInfo_symLinkTarget w p))"
    by (auto simp add: hop_Suc [symmetric])
  from Suc.prems(2) have b: "\<not> QFileInfo_isSymLink w (hop w n (QFileInfo_symLinkTarget w p))"
    by (simp add: hop_Suc)
  from Suc.prems(3) m have c: "n + 2 \<le> m'" "m' \<noteq> 0" by simp_all
  from Suc.IH [OF a b c(1)] l c(2) show ?case by (simp add: m hop_Suc)
qed

lemma followSymLinks_exhausted:
  "\<forall>k<m. QFileInfo_isSymLink w (hop w k p) \<Longrightarrow>
     followSymLinks w (Suc m) p = (0, hop w m p)"
proof (induction m arbitrary: p)
  case 0
  then show ?case by (simp add: hop_def)
next
  case (Suc m)
  from Suc.prems have l: "QFileInfo_isSymLink w p" by (auto simp add: hop_def)
  from Suc.prems have a: "\<forall>k<m. QFileInfo_isSymLink w (hop w k (QFileInfo_symLinkTarget w p))"
    by (auto simp add: hop_Suc [symmetric])
  from Suc.IH [OF a] l show ?case by (simp add: hop_Suc)
qed

lemma hop_linkChain:
  "k \<le> n \<Longrightarrow> hop (linkChain n) k ''l'' = replicate (Suc k) (CHR ''l'')"
proof (induction k)
  case 0
  then show ?case by (simp add: hop_def)
next
  case (Suc k)
  then have "hop (linkChain n) k ''l'' = replicate (Suc k) (CHR ''l'')" by simp
  then have "hop (linkChain n) (Suc k) ''l'' =
               QFileInfo_symLinkTarget (linkChain n) (replicate (Suc k) (CHR ''l''))"
    by (simp add: hop_def)
  also from Suc.prems have "\<dots> = replicate (Suc (Suc k)) (CHR ''l'')"
    by (simp add: QFileInfo_symLinkTarget_def linkChain_def)
  finally show ?case .
qed

lemma isSymLink_linkChain:
  "QFileInfo_isSymLink (linkChain n) (replicate (Suc k) (CHR ''l'')) \<longleftrightarrow> Suc k \<le> n"
  by (simp add: QFileInfo_isSymLink_def linkChain_def newEntry_def)

lemma openDirectly_writeError:
  "openDirectly env mode d w = (ok, d1, w1) \<Longrightarrow> writeError d1 = writeError d"
  by (auto simp add: openDirectly_def QFileDevice_open_def Let_def split: prod.splits if_splits)

lemma openRequiringDirectWrite_writeError:
  "openRequiringDirectWrite env mode d w = (ok, d1, w1) \<Longrightarrow> writeError d1 = writeError d"
  by (auto simp add: openRequiringDirectWrite_def setError_def Let_def
      dest: openDirectly_writeError split: prod.splits if_splits)

lemma openTemporary_writeError:
  assumes "openTemporary env mode ef d w = (True, d1, w1)"
  shows "writeError d1 = writeError d"
proof (cases "useTemporaryFile d1")
  case True
  show ?thesis by (subst openTemporary_staging(3) [OF assms True]) simp
next
  case False
  with assms show ?thesis
    by (auto simp add: openTemporary_def QTemporaryFileEngine_open_def
        QTemporaryFileEngine_create_def Let_def logCall_def QFileDevice_open_def
        setPermissions_def engine_setPermissions_def
        dest!: openDirectly_writeError split: prod.splits if_splits option.splits)
qed

lemma open_True_writeError:
  assumes "QSaveFile_open env mode d w = (True, d1, w1)"
  shows "writeError d1 = NoError"
  using assms
  by (auto simp add: QSaveFile_open_def Let_def unsetError_def setError_def
      dest!: openRequiringDirectWrite_writeError openTemporary_writeError
      split: prod.splits if_splits)

subsection \<open>Claims\<close>

text \<open>
  C9: in every state of every session, \<^verbatim>\<open>close()\<close> ends the program with a fatal
  error; it never returns, so a session is only ever finalised by \<^verbatim>\<open>commit()\<close> or by
  being discarded.
\<close>

theorem close_is_fatal:
  "QSaveFile_close d w = Fatal ''QSaveFile::close called'' \<and> QSaveFile_close d w \<noteq> Returned r"
  by (simp add: QSaveFile_close_def)

text \<open>
  C10: \<^verbatim>\<open>open()\<close> on a session that is open already returns false and leaves the
  session as it is (engine handle, latched error, error state, file name); no engine call
  is made and the file table is unchanged. Only a warning is logged.
\<close>

theorem open_already_open:
  assumes "isOpen d"
  shows "QSaveFile_open env mode d w = (False, d, warn (WarnAlreadyOpen (fileName d)) w)
         \<and> files (snd (snd (QSaveFile_open env mode d w))) = files w
         \<and> calls (snd (snd (QSaveFile_open env mode d w))) = calls w"
  using assms by (simp add: QSaveFile_open_def warn_def)

theorem open_already_open_witness:
  "isOpen (fst (snd stagedOpened))
   \<and> \<not> fst (QSaveFile_open exampleEnv {WriteOnly} (fst (snd stagedOpened)) (snd (snd stagedOpened)))
   \<and> fst (snd (QSaveFile_open exampleEnv {WriteOnly} (fst (snd stagedOpened)) (snd (snd stagedOpened))))
       = fst (snd stagedOpened)
   \<and> calls (snd (snd (QSaveFile_open exampleEnv {WriteOnly} (fst (snd stagedOpened))
               (snd (snd stagedOpened)))))
       = calls (snd (snd stagedOpened))"
proof -
  have h: "isOpen (fst (snd stagedOpened))" by code_simp
  show ?thesis
    using h open_already_open [OF h, of exampleEnv "{WriteOnly}" "snd (snd stagedOpened)"]
    by (simp add: warn_def)
qed

text \<open>
  C5: when the target path exists and is a directory, or exists and is not writable,
  \<^verbatim>\<open>open()\<close> returns false, makes no engine call, creates no engine and leaves the file
  table as it is: no staging file is created and the destination is untouched. When the
  call reaches the checks of the path (the session is not open and the mode is a
  supported one), the error kind and the latched error are \<open>WriteError\<close> and the
  world is unchanged.
\<close>

theorem open_rejects_directory_or_unwritable:
  assumes "QFileInfo_exists w (fileName d)"
    and "QFileInfo_isDir w (fileName d) \<or> \<not> QFileInfo_isWritable w (fileName d)"
  shows "\<not> fst (QSaveFile_open env mode d w)
         \<and> files (snd (snd (QSaveFile_open env mode d w))) = files w
         \<and> calls (snd (snd (QSaveFile_open env mode d w))) = calls w
         \<and> fileEngine (fst (snd (QSaveFile_open env mode d w))) = fileEngine d
         \<and> (\<not> isOpen d \<and> mode \<inter> {ReadOnly, WriteOnly} \<noteq> {}
              \<and> mode \<inter> {ReadOnly, Append, NewOnly, ExistingOnly} = {} \<longrightarrow>
              QSaveFile_open env mode d w =
                (False,
                 d\<lparr>error := WriteError,
                   errorString := (if QFileInfo_isWritable w (fileName d)
                                   then ''Filename refers to a directory''
                                   else ''Existing file '' @ fileName d @ '' is not writable''),
                   writeError := WriteError\<rparr>,
                 w))"
  using assms by (auto simp add: QSaveFile_open_def unsetError_def setError_def warn_def Let_def)

theorem open_rejects_directory_or_unwritable_witness:
  "QFileInfo_exists exampleWorld (fileName (QSaveFile ''/tmp/dir''))
   \<and> QFileInfo_isDir exampleWorld (fileName (QSaveFile ''/tmp/dir''))
   \<and> \<not> isOpen (QSaveFile ''/tmp/dir'')
   \<and> {WriteOnly} \<inter> {ReadOnly, WriteOnly} \<noteq> {}
   \<and> {WriteOnly} \<inter> {ReadOnly, Append, NewOnly, ExistingOnly} = {}
   \<and> QSaveFile_open exampleEnv {WriteOnly} (QSaveFile ''/tmp/dir'') exampleWorld =
       (False,
        (QSaveFile ''/tmp/dir'')\<lparr>error := WriteError,
           errorString := ''Filename refers to a directory'', writeError := WriteError\<rparr>,
        exampleWorld)
   \<and> QFileInfo_exists exampleWorld (fileName (QSaveFile ''/tmp/readonly.txt''))
   \<and> \<not> QFileInfo_isWritable exampleWorld (fileName (QSaveFile ''/tmp/readonly.txt''))
   \<and> \<not> isOpen (QSaveFile ''/tmp/readonly.txt'')
   \<and> QSaveFile_open exampleEnv {WriteOnly} (QSaveFile ''/tmp/readonly.txt'') exampleWorld =
       (False,
        (QSaveFile ''/tmp/readonly.txt'')\<lparr>error := WriteError,
           errorString := ''Existing file /tmp/readonly.txt is not writable'',
           writeError := WriteError\<rparr>,
        exampleWorld)"
proof -
  have 1: "\<not> isOpen (QSaveFile ''/tmp/dir'')" by (simp add: isOpen_def QSaveFile_def)
  have 2: "{WriteOnly} \<inter> {ReadOnly, WriteOnly} \<noteq> {}" by simp
  have 3: "{WriteOnly} \<inter> {ReadOnly, Append, NewOnly, ExistingOnly} = {}" by simp
  have 4: "QFileInfo_exists exampleWorld (fileName (QSaveFile ''/tmp/dir''))"
    by (simp add: QFileInfo_exists_def exampleWorld_def QSaveFile_def)
  have 5: "QFileInfo_isDir exampleWorld (fileName (QSaveFile ''/tmp/dir''))"
    by (simp add: QFileInfo_isDir_def exampleWorld_def QSaveFile_def)
  have 6: "QFileInfo_isWritable exampleWorld (fileName (QSaveFile ''/tmp/dir''))"
    by (simp add: QFileInfo_isWritable_def exampleWorld_def QSaveFile_def)
  have 7: "\<not> isOpen (QSaveFile ''/tmp/readonly.txt'')" by (simp add: isOpen_def QSaveFile_def)
  have 8: "QFileInfo_exists exampleWorld (fileName (QSaveFile ''/tmp/readonly.txt''))"
    by (simp add: QFileInfo_exists_def exampleWorld_def QSaveFile_def)
  have 9: "\<not> QFileInfo_isWritable exampleWorld (fileName (QSaveFile ''/tmp/readonly.txt''))"
    by (simp add: QFileInfo_isWritable_def exampleWorld_def QSaveFile_def)
  have 10: "fileName (QSaveFile ''/tmp/readonly.txt'') = ''/tmp/readonly.txt''"
    by (simp add: QSaveFile_def)
  note a = open_rejects_directory_or_unwritable [OF 4 disjI1 [OF 5], of exampleEnv "{WriteOnly}"]
  note b = open_rejects_directory_or_unwritable [OF 8 disjI2 [OF 9], of exampleEnv "{WriteOnly}"]
  from a 1 2 3 6 have c: "QSaveFile_open exampleEnv {WriteOnly} (QSaveFile ''/tmp/dir'') exampleWorld =
       (False,
        (QSaveFile ''/tmp/dir'')\<lparr>error := WriteError,
           errorString := ''Filename refers to a directory'', writeError := WriteError\<rparr>,
        exampleWorld)"
    by simp
  from b 7 2 3 9 10 have d: "QSaveFile_open exampleEnv {WriteOnly} (QSaveFile ''/tmp/readonly.txt'') exampleWorld =
       (False,
        (QSaveFile ''/tmp/readonly.txt'')\<lparr>error := WriteError,
           errorString := ''Existing file /tmp/readonly.txt is not writable'',
           writeError := WriteError\<rparr>,
        exampleWorld)"
    by simp
  from 1 2 3 4 5 7 8 9 c d show ?thesis by simp
qed

text \<open>
  C6, as amended: when the mode lacks \<open>WriteOnly\<close>, or has one of \<open>ReadOnly\<close>,
  \<open>Append\<close>, \<open>NewOnly\<close>, \<open>ExistingOnly\<close>, \<^verbatim>\<open>open()\<close> on a session that is not open
  returns false and logs a warning; it sets no error: the error state and the latched
  error are the cleared ones (\<open>NoError\<close>), and nothing is created.
\<close>

theorem open_rejects_mode:
  assumes "\<not> isOpen d"
    and "WriteOnly \<notin> mode \<or> mode \<inter> {ReadOnly, Append, NewOnly, ExistingOnly} \<noteq> {}"
  shows "QSaveFile_open env mode d w =
           (False,
            d\<lparr>error := NoError, errorString := [], writeError := NoError\<rparr>,
            warn (if mode \<inter> {ReadOnly, WriteOnly} = {} then WarnModeNotSpecified
                  else WarnUnsupportedMode mode) w)"
  using assms by (auto simp add: QSaveFile_open_def unsetError_def setError_def)

theorem open_rejects_mode_witness:
  "\<not> isOpen exampleSession \<and> WriteOnly \<notin> {ReadOnly}
   \<and> QSaveFile_open exampleEnv {ReadOnly} exampleSession exampleWorld =
       (False, exampleSession, warn (WarnUnsupportedMode {ReadOnly}) exampleWorld)"
proof -
  have 1: "\<not> isOpen exampleSession" by (simp add: isOpen_def exampleSession_def QSaveFile_def)
  have 2: "WriteOnly \<notin> {ReadOnly}" by simp
  have 3: "exampleSession\<lparr>error := NoError, errorString := [], writeError := NoError\<rparr> = exampleSession"
    by (simp add: exampleSession_def QSaveFile_def)
  show ?thesis
    using 1 2 open_rejects_mode [OF 1 disjI1 [OF 2], of exampleEnv exampleWorld]
    by (simp add: 3)
qed

text \<open>
  C6 as stated fails: a mode with \<open>ReadOnly\<close> and \<open>Append\<close> is rejected, but the error
  kind afterwards is \<open>NoError\<close>, not \<open>OpenError\<close>.
\<close>

theorem open_rejected_mode_sets_no_error:
  "\<not> fst (QSaveFile_open exampleEnv {ReadOnly, WriteOnly, Append} exampleSession exampleWorld)
   \<and> error (fst (snd (QSaveFile_open exampleEnv {ReadOnly, WriteOnly, Append} exampleSession exampleWorld)))
       = NoError
   \<and> error (fst (snd (QSaveFile_open exampleEnv {ReadOnly, WriteOnly, Append} exampleSession exampleWorld)))
       \<noteq> OpenError"
  by (simp add: QSaveFile_open_def exampleSession_def QSaveFile_def isOpen_def unsetError_def
      setError_def)

text \<open>
  C2: for a session opened in staging mode, after any writes and cancellations, whenever
  \<^verbatim>\<open>commit()\<close> returns false the staging file has been removed and the file table is
  the one from before \<^verbatim>\<open>open()\<close>, so the destination is untouched; and when the latch
  was not set, the failure is a failed rename, whose error kind and message (the
  engine's) are the session's error state afterwards.
\<close>

theorem failed_commit_discards:
  assumes "QSaveFile_open envO mode d w = (True, d1, w1)" and "useTemporaryFile d1"
    and "run cs d1 w1 = (rs, d2, w2)"
    and "QSaveFile_commit envC d2 w2 = (False, d3, w3)"
  shows "files w3 = files w
         \<and> files w3 (stagingPath envO w d) = None
         \<and> CallRemove (stagingPath envO w d) \<in> set (calls w3)
         \<and> (writeError d2 = NoError \<longrightarrow> renameFailure envC = Some (error d3, errorString d3))"
  using assms by (rule session_commit_False)

theorem failed_commit_discards_witness:
  "fst stagedOpened \<and> useTemporaryFile (fst (snd stagedOpened))
   \<and> \<not> fst (QSaveFile_commit renameFailEnv (fst (snd stagedWritten)) (snd (snd stagedWritten)))
   \<and> writeError (fst (snd stagedWritten)) = NoError
   \<and> files (snd (snd (QSaveFile_commit renameFailEnv (fst (snd stagedWritten))
                        (snd (snd stagedWritten))))) = files exampleWorld
   \<and> error (fst (snd (QSaveFile_commit renameFailEnv (fst (snd stagedWritten))
                        (snd (snd stagedWritten))))) = RenameError"
proof -
  have 1: "fst stagedOpened" by code_simp
  have 2: "useTemporaryFile (fst (snd stagedOpened))" by code_simp
  have 3: "\<not> fst (QSaveFile_commit renameFailEnv (fst (snd stagedWritten)) (snd (snd stagedWritten)))"
    by code_simp
  have 4: "writeError (fst (snd stagedWritten)) = NoError" by code_simp
  have 5: "renameFailure renameFailEnv = Some (RenameError, ''Permission denied'')"
    by (simp add: renameFailEnv_def exampleEnv_def)
  have o: "QSaveFile_open exampleEnv {WriteOnly} exampleSession exampleWorld =
             (True, fst (snd stagedOpened), snd (snd stagedOpened))"
    using 1 by (simp add: stagedOpened_def prod_eq_iff)
  have r: "run [Write exampleEnv ''hello''] (fst (snd stagedOpened)) (snd (snd stagedOpened)) =
             (fst stagedWritten, fst (snd stagedWritten), snd (snd stagedWritten))"
    by (simp add: stagedWritten_def)
  have c: "QSaveFile_commit renameFailEnv (fst (snd stagedWritten)) (snd (snd stagedWritten)) =
             (False,
              fst (snd (QSaveFile_commit renameFailEnv (fst (snd stagedWritten)) (snd (snd stagedWritten)))),
              snd (snd (QSaveFile_commit renameFailEnv (fst (snd stagedWritten)) (snd (snd stagedWritten)))))"
    using 3 by (simp add: prod_eq_iff)
  show ?thesis
    using 1 2 3 4 5 failed_commit_discards [OF o 2 r c] by simp
qed


text \<open>
  C1, as amended: in every session, in staging mode or in direct-write mode, once the
  latched write error is set, every later \<^verbatim>\<open>write()\<close> returns \<open>-1\<close> and changes
  neither the session nor the world (no engine call is made), and the latch stays set
  through any further writes and cancellations. When the session was opened in staging
  mode, \<^verbatim>\<open>commit()\<close> then returns false and leaves the file table as it was before
  \<^verbatim>\<open>open()\<close>.
\<close>

theorem latched_writes_fail_and_commit_discards:
  assumes "writeError d2 \<noteq> NoError"
    and "run cs2 d2 w2 = (rs2, d3, w3)"
  shows "(\<forall>r \<in> set rs2. r = - 1) \<and> w3 = w2 \<and> writeError d3 \<noteq> NoError
         \<and> QSaveFile_writeData envW data d3 w3 = (- 1, d3, w3)
         \<and> (QSaveFile_open envO mode d w = (True, d1, w1) \<and> useTemporaryFile d1
              \<and> run cs1 d1 w1 = (rs1, d2, w2) \<longrightarrow>
              \<not> fst (QSaveFile_commit envC d3 w3)
              \<and> files (snd (snd (QSaveFile_commit envC d3 w3))) = files w)"
proof -
  note l = run_latched [OF assms]
  from l have e: "writeError d3 \<noteq> NoError" by simp
  have staging: "\<not> fst (QSaveFile_commit envC d3 w3)
      \<and> files (snd (snd (QSaveFile_commit envC d3 w3))) = files w"
    if o: "QSaveFile_open envO mode d w = (True, d1, w1)" and u: "useTemporaryFile d1"
      and r1: "run cs1 d1 w1 = (rs1, d2, w2)"
  proof -
    obtain ok d4 w4 where c: "QSaveFile_commit envC d3 w3 = (ok, d4, w4)"
      by (cases "QSaveFile_commit envC d3 w3") auto
    note s1 = run_staged [OF open_staged(1) [OF o u] r1]
    note s2 = run_staged [OF conjunct1 [OF s1] assms(2)]
    from s2 obtain fe where s: "isOpen d3" "fileEngine d3 = Some fe" "useTemporaryFile d3"
      by (auto simp add: staged_def split: option.splits)
    from c have ok: "\<not> ok" by (simp add: commit_latched [OF s e])
    from r1 assms(2) have r: "run (cs1 @ cs2) d1 w1 = (rs1 @ rs2, d3, w3)"
      by (rule run_append)
    from c ok have c': "QSaveFile_commit envC d3 w3 = (False, d4, w4)" by simp
    from session_commit_False [OF o u r c']
    have "files w4 = files w" by simp
    with c ok show ?thesis by simp
  qed
  from l staging writeData_latched [OF e] show ?thesis by simp
qed


theorem latched_writes_fail_and_commit_discards_witness:
  "fst stagedOpened \<and> useTemporaryFile (fst (snd stagedOpened))
   \<and> writeError (fst (snd stagedDiskFull)) \<noteq> NoError
   \<and> fst (QSaveFile_writeData exampleEnv ''again'' (fst (snd stagedDiskFull)) (snd (snd stagedDiskFull)))
       = - 1
   \<and> calls (snd (snd (QSaveFile_writeData exampleEnv ''again'' (fst (snd stagedDiskFull))
                        (snd (snd stagedDiskFull)))))
       = calls (snd (snd stagedDiskFull))
   \<and> \<not> fst (QSaveFile_commit exampleEnv (fst (snd stagedDiskFull)) (snd (snd stagedDiskFull)))
   \<and> files (snd (snd (QSaveFile_commit exampleEnv (fst (snd stagedDiskFull))
                        (snd (snd stagedDiskFull))))) = files exampleWorld
   \<and> fst directOpened \<and> \<not> useTemporaryFile (fst (snd directOpened))
   \<and> writeError (fst (snd directDiskFull)) \<noteq> NoError
   \<and> fst (QSaveFile_writeData exampleEnv ''again'' (fst (snd directDiskFull)) (snd (snd directDiskFull)))
       = - 1
   \<and> calls (snd (snd (QSaveFile_writeData exampleEnv ''again'' (fst (snd directDiskFull))
                        (snd (snd directDiskFull)))))
       = calls (snd (snd directDiskFull))"
proof -
  have 1: "fst stagedOpened" by code_simp
  have 2: "useTemporaryFile (fst (snd stagedOpened))" by code_simp
  have 3: "writeError (fst (snd stagedDiskFull)) \<noteq> NoError" by code_simp
  have o: "QSaveFile_open exampleEnv {WriteOnly} exampleSession exampleWorld =
             (True, fst (snd stagedOpened), snd (snd stagedOpened))"
    using 1 by (simp add: stagedOpened_def prod_eq_iff)
  have r1: "run [Write exampleEnv ''hello'', Write diskFullEnv ''world'']
              (fst (snd stagedOpened)) (snd (snd stagedOpened)) =
             (fst stagedDiskFull, fst (snd stagedDiskFull), snd (snd stagedDiskFull))"
    by (simp add: stagedDiskFull_def)
  have r2: "run [] (fst (snd stagedDiskFull)) (snd (snd stagedDiskFull)) =
             ([], fst (snd stagedDiskFull), snd (snd stagedDiskFull))"
    by simp
  have 4: "fst directOpened" by code_simp
  have 5: "\<not> useTemporaryFile (fst (snd directOpened))" by code_simp
  have 6: "writeError (fst (snd directDiskFull)) \<noteq> NoError" by code_simp
  have r3: "run [] (fst (snd directDiskFull)) (snd (snd directDiskFull)) =
             ([], fst (snd directDiskFull), snd (snd directDiskFull))"
    by simp
  note s = latched_writes_fail_and_commit_discards [OF 3 r2,
      where envW = exampleEnv and data = "''again''" and envO = exampleEnv
        and mode = "{WriteOnly}" and d = exampleSession and w = exampleWorld
        and ?d1.0 = "fst (snd stagedOpened)" and ?w1.0 = "snd (snd stagedOpened)"
        and ?cs1.0 = "[Write exampleEnv ''hello'', Write diskFullEnv ''world'']"
        and ?rs1.0 = "fst stagedDiskFull" and envC = exampleEnv]
  note t = latched_writes_fail_and_commit_discards [OF 6 r3,
      where envW = exampleEnv and data = "''again''"]
  from s o 2 r1 have a: "fst (QSaveFile_writeData exampleEnv ''again'' (fst (snd stagedDiskFull))
                                (snd (snd stagedDiskFull))) = - 1
      \<and> calls (snd (snd (QSaveFile_writeData exampleEnv ''again'' (fst (snd stagedDiskFull))
                            (snd (snd stagedDiskFull))))) = calls (snd (snd stagedDiskFull))
      \<and> \<not> fst (QSaveFile_commit exampleEnv (fst (snd stagedDiskFull)) (snd (snd stagedDiskFull)))
      \<and> files (snd (snd (QSaveFile_commit exampleEnv (fst (snd stagedDiskFull))
                            (snd (snd stagedDiskFull))))) = files exampleWorld"
    by simp
  from t have b: "fst (QSaveFile_writeData exampleEnv ''again'' (fst (snd directDiskFull))
                         (snd (snd directDiskFull))) = - 1
      \<and> calls (snd (snd (QSaveFile_writeData exampleEnv ''again'' (fst (snd directDiskFull))
                            (snd (snd directDiskFull))))) = calls (snd (snd directDiskFull))"
    by simp
  from 1 2 3 4 5 6 a b show ?thesis by simp
qed

text \<open>
  C1 as stated fails for a session in direct-write mode: after a write that met a full
  disk (the latch holds \<open>ResourceError\<close>), \<^verbatim>\<open>commit()\<close> returns true, and the
  destination holds the bytes written before the failure instead of its old content.
\<close>

theorem direct_write_commit_after_failed_write:
  "fst directOpened \<and> \<not> useTemporaryFile (fst (snd directOpened))
   \<and> fst directDiskFull = [5, - 1]
   \<and> writeError (fst (snd directDiskFull)) = ResourceError
   \<and> fst (QSaveFile_commit exampleEnv (fst (snd directDiskFull)) (snd (snd directDiskFull)))
   \<and> map_option content
        (files (snd (snd (QSaveFile_commit exampleEnv (fst (snd directDiskFull))
                            (snd (snd directDiskFull))))) ''/tmp/doc.txt'') = Some ''hello''
   \<and> map_option content (files exampleWorld ''/tmp/doc.txt'') = Some ''old''"
  by code_simp


text \<open>
  C3, as amended: in an open session, after any writes, \<^verbatim>\<open>cancelWriting()\<close> sets the
  latch and the error state to \<open>WriteError\<close> with the message
  \<open>Writing canceled by application\<close>, in either mode, and later writes return \<open>-1\<close>
  without effect. In staging mode \<^verbatim>\<open>commit()\<close> then returns false, the staging file is
  removed and the file table is the one from before \<^verbatim>\<open>open()\<close>. In direct-write mode
  \<^verbatim>\<open>commit()\<close> then returns true and leaves the file table as the writes made it.
\<close>

theorem cancel_then_commit:
  assumes "QSaveFile_open envO mode d w = (True, d1, w1)"
    and "run cs d1 w1 = (rs, d2, w2)"
  shows "writeError (QSaveFile_cancelWriting d2) = WriteError
         \<and> error (QSaveFile_cancelWriting d2) = WriteError
         \<and> errorString (QSaveFile_cancelWriting d2) = ''Writing canceled by application''
         \<and> QSaveFile_writeData envW data (QSaveFile_cancelWriting d2) w2 =
             (- 1, QSaveFile_cancelWriting d2, w2)
         \<and> (useTemporaryFile d1 \<longrightarrow>
               \<not> fst (QSaveFile_commit envC (QSaveFile_cancelWriting d2) w2)
               \<and> files (snd (snd (QSaveFile_commit envC (QSaveFile_cancelWriting d2) w2))) = files w
               \<and> CallRemove (stagingPath envO w d)
                    \<in> set (calls (snd (snd (QSaveFile_commit envC (QSaveFile_cancelWriting d2) w2)))))
         \<and> (\<not> useTemporaryFile d1 \<longrightarrow>
               fst (QSaveFile_commit envC (QSaveFile_cancelWriting d2) w2)
               \<and> files (snd (snd (QSaveFile_commit envC (QSaveFile_cancelWriting d2) w2))) = files w2)"
proof -
  let ?d = "QSaveFile_cancelWriting d2"
  note t = open_True [OF assms(1)]
  note f = run_frame [OF assms(2)]
  from t f have op: "isOpen d2" by (simp add: isOpen_def)
  from t f obtain fe where fe: "fileEngine d2 = Some fe" by auto
  note c = cancelWriting_open [OF op]
  have l: "writeError ?d \<noteq> NoError" by (simp add: c)
  have op': "isOpen ?d" using op by (simp add: isOpen_def cancelWriting_frame)
  have fe': "fileEngine ?d = Some fe" using fe by (simp add: cancelWriting_frame)
  have staging: "\<not> fst (QSaveFile_commit envC ?d w2)
      \<and> files (snd (snd (QSaveFile_commit envC ?d w2))) = files w
      \<and> CallRemove (stagingPath envO w d) \<in> set (calls (snd (snd (QSaveFile_commit envC ?d w2))))"
    if u: "useTemporaryFile d1"
  proof -
    from u f have u': "useTemporaryFile ?d" by (simp add: cancelWriting_frame)
    have r: "run (cs @ [CancelWriting]) d1 w1 = (rs @ [], ?d, w2)"
      by (rule run_append [OF assms(2)]) simp
    obtain d3 w3 where k: "QSaveFile_commit envC ?d w2 = (False, d3, w3)"
      by (simp add: commit_latched [OF op' fe' u' l])
    from session_commit_False [OF assms(1) u r k] k show ?thesis by simp
  qed
  have directly: "fst (QSaveFile_commit envC ?d w2)
      \<and> files (snd (snd (QSaveFile_commit envC ?d w2))) = files w2"
    if u: "\<not> useTemporaryFile d1"
  proof -
    from u f have u': "\<not> useTemporaryFile ?d" by (simp add: cancelWriting_frame)
    show ?thesis by (simp add: commit_direct [OF op' fe' u'])
  qed
  from staging directly writeData_latched [OF l] show ?thesis by (simp add: c)
qed

theorem cancel_then_commit_witness:
  "fst stagedOpened \<and> useTemporaryFile (fst (snd stagedOpened))
   \<and> writeError (QSaveFile_cancelWriting (fst (snd stagedWritten))) = WriteError
   \<and> \<not> fst (QSaveFile_commit exampleEnv (QSaveFile_cancelWriting (fst (snd stagedWritten)))
              (snd (snd stagedWritten)))
   \<and> files (snd (snd (QSaveFile_commit exampleEnv (QSaveFile_cancelWriting (fst (snd stagedWritten)))
                        (snd (snd stagedWritten))))) = files exampleWorld
   \<and> fst directOpened \<and> \<not> useTemporaryFile (fst (snd directOpened))
   \<and> writeError (QSaveFile_cancelWriting (fst (snd directOpened))) = WriteError
   \<and> fst (QSaveFile_writeData exampleEnv ''more'' (QSaveFile_cancelWriting (fst (snd directOpened)))
            (snd (snd directOpened))) = - 1
   \<and> fst (QSaveFile_commit exampleEnv (QSaveFile_cancelWriting (fst (snd directOpened)))
            (snd (snd directOpened)))"
proof -
  have 1: "fst stagedOpened" by code_simp
  have 2: "useTemporaryFile (fst (snd stagedOpened))" by code_simp
  have o: "QSaveFile_open exampleEnv {WriteOnly} exampleSession exampleWorld =
             (True, fst (snd stagedOpened), snd (snd stagedOpened))"
    using 1 by (simp add: stagedOpened_def prod_eq_iff)
  have r: "run [Write exampleEnv ''hello''] (fst (snd stagedOpened)) (snd (snd stagedOpened)) =
             (fst stagedWritten, fst (snd stagedWritten), snd (snd stagedWritten))"
    by (simp add: stagedWritten_def)
  have 3: "fst directOpened" by code_simp
  have 4: "\<not> useTemporaryFile (fst (snd directOpened))" by code_simp
  have o': "QSaveFile_open readOnlyDirEnv {WriteOnly} fallbackSession exampleWorld =
             (True, fst (snd directOpened), snd (snd directOpened))"
    using 3 by (simp add: directOpened_def prod_eq_iff)
  have r': "run [] (fst (snd directOpened)) (snd (snd directOpened)) =
             ([], fst (snd directOpened), snd (snd directOpened))"
    by simp
  show ?thesis
    using 1 2 3 4 cancel_then_commit [OF o r, of exampleEnv "[]" exampleEnv]
      cancel_then_commit [OF o' r', of exampleEnv "''more''" exampleEnv]
    by simp
qed

text \<open>
  C3 as stated fails for a session in direct-write mode: \<^verbatim>\<open>cancelWriting()\<close> followed
  by \<^verbatim>\<open>commit()\<close> returns true.
\<close>

theorem direct_write_commit_after_cancel:
  "fst directOpened \<and> isOpen (fst (snd directOpened))
   \<and> fst (QSaveFile_commit exampleEnv (QSaveFile_cancelWriting (fst (snd directOpened)))
            (snd (snd directOpened)))"
  by code_simp

text \<open>
  C4, as amended: once the latched write error is set, no sequence of \<^verbatim>\<open>write()\<close> and
  \<^verbatim>\<open>cancelWriting()\<close> calls clears it. \<^verbatim>\<open>commit()\<close> does clear it when the session
  is open in staging mode (the branch that discards the staging file), and leaves it as
  it is otherwise. After an \<^verbatim>\<open>open()\<close> that succeeds the latch is clear.
\<close>

theorem latch_persists:
  assumes "writeError d \<noteq> NoError" and "run cs d w = (rs, d', w')"
  shows "writeError d' \<noteq> NoError
         \<and> writeError (fst (snd (QSaveFile_commit env d' w'))) =
             (if fileEngine d' \<noteq> None \<and> isOpen d' \<and> useTemporaryFile d' then NoError
              else writeError d')
         \<and> (QSaveFile_open envO mode d' w' = (True, d1, w1) \<longrightarrow> writeError d1 = NoError)"
proof -
  from run_latched [OF assms] have l: "writeError d' \<noteq> NoError" by simp
  have "writeError (fst (snd (QSaveFile_commit env d' w'))) =
          (if fileEngine d' \<noteq> None \<and> isOpen d' \<and> useTemporaryFile d' then NoError
           else writeError d')"
  proof (cases "fileEngine d'")
    case None
    then show ?thesis by (simp add: QSaveFile_commit_def)
  next
    case (Some fe)
    show ?thesis
    proof (cases "isOpen d'")
      case False
      with Some show ?thesis by (simp add: QSaveFile_commit_def)
    next
      case True
      show ?thesis
      proof (cases "useTemporaryFile d'")
        case u: True
        show ?thesis using Some True u by (simp add: commit_latched [OF True Some u l])
      next
        case u: False
        show ?thesis using u by (simp add: commit_direct [OF True Some u])
      qed
    qed
  qed
  with l open_True_writeError show ?thesis by blast
qed

theorem latch_persists_witness:
  "writeError (fst (snd stagedDiskFull)) \<noteq> NoError
   \<and> writeError (fst (snd (run [Write exampleEnv ''again'', CancelWriting]
                             (fst (snd stagedDiskFull)) (snd (snd stagedDiskFull))))) \<noteq> NoError
   \<and> writeError (fst (snd directCancelled)) \<noteq> NoError
   \<and> fst (QSaveFile_open exampleEnv {WriteOnly} (fst (snd directCancelled)) (snd (snd directCancelled)))
   \<and> writeError (fst (snd (QSaveFile_open exampleEnv {WriteOnly} (fst (snd directCancelled))
                             (snd (snd directCancelled))))) = NoError"
proof -
  have 1: "writeError (fst (snd stagedDiskFull)) \<noteq> NoError" by code_simp
  have r: "run [Write exampleEnv ''again'', CancelWriting]
             (fst (snd stagedDiskFull)) (snd (snd stagedDiskFull)) =
           (fst (run [Write exampleEnv ''again'', CancelWriting]
                   (fst (snd stagedDiskFull)) (snd (snd stagedDiskFull))),
            fst (snd (run [Write exampleEnv ''again'', CancelWriting]
                   (fst (snd stagedDiskFull)) (snd (snd stagedDiskFull)))),
            snd (snd (run [Write exampleEnv ''again'', CancelWriting]
                   (fst (snd stagedDiskFull)) (snd (snd stagedDiskFull)))))"
    by simp
  have 2: "writeError (fst (snd directCancelled)) \<noteq> NoError" by code_simp
  have 3: "fst (QSaveFile_open exampleEnv {WriteOnly} (fst (snd directCancelled))
                  (snd (snd directCancelled)))"
    by code_simp
  have r': "run [] (fst (snd directCancelled)) (snd (snd directCancelled)) =
              ([], fst (snd directCancelled), snd (snd directCancelled))"
    by simp
  have o: "QSaveFile_open exampleEnv {WriteOnly} (fst (snd directCancelled)) (snd (snd directCancelled)) =
             (True,
              fst (snd (QSaveFile_open exampleEnv {WriteOnly} (fst (snd directCancelled))
                          (snd (snd directCancelled)))),
              snd (snd (QSaveFile_open exampleEnv {WriteOnly} (fst (snd directCancelled))
                          (snd (snd directCancelled)))))"
    using 3 by (simp add: prod_eq_iff)
  have a: "writeError (fst (snd (run [Write exampleEnv ''again'', CancelWriting]
                             (fst (snd stagedDiskFull)) (snd (snd stagedDiskFull))))) \<noteq> NoError"
    using latch_persists [OF 1 r, of exampleEnv] by blast
  have b: "writeError (fst (snd (QSaveFile_open exampleEnv {WriteOnly} (fst (snd directCancelled))
                             (snd (snd directCancelled))))) = NoError"
    using latch_persists [OF 2 r', THEN conjunct2, THEN conjunct2] o by blast
  from 1 2 3 a b show ?thesis by simp
qed

text \<open>
  C4 as stated fails: \<^verbatim>\<open>commit()\<close> on an open staging session whose latch is set resets
  the latch to \<open>NoError\<close>.
\<close>

theorem commit_clears_latch:
  "isOpen (fst (snd stagedDiskFull))
   \<and> writeError (fst (snd stagedDiskFull)) = ResourceError
   \<and> writeError (fst (snd (QSaveFile_commit exampleEnv (fst (snd stagedDiskFull))
                             (snd (snd stagedDiskFull))))) = NoError"
  by code_simp

text \<open>
  C7: when \<^verbatim>\<open>open()\<close> succeeds in staging mode, the staging file is created with
  mode \<open>0666\<close> less the umask when nothing exists at the destination, and with mode
  \<open>0600\<close> when a file (an entry that is no symbolic link) exists there; in the latter case the permission bits \<open>P\<close> of
  that file are then set on the staging file, and after any writes and cancellations a
  \<^verbatim>\<open>commit()\<close> that returns true leaves the destination with the bits \<open>P\<close> (with
  \<open>0666\<close> less the umask when there was no file before).
\<close>

theorem staging_permissions:
  assumes "QSaveFile_open envO mode d w = (True, d1, w1)" and "useTemporaryFile d1"
  shows "(files w (finalFileName d1) = None \<longrightarrow>
            calls w1 = calls w @ [CallOpenTemporary (finalFileName d1) 438 (mode \<union> {Unbuffered})]
            \<and> map_option permissionBits (files w1 (stagingPath envO w d))
                 = Some (and 438 (not (umask envO)))
            \<and> (\<forall>cs envC.
                  fst (QSaveFile_commit envC (fst (snd (run cs d1 w1))) (snd (snd (run cs d1 w1))))
                  \<longrightarrow> map_option permissionBits
                        (files (snd (snd (QSaveFile_commit envC (fst (snd (run cs d1 w1)))
                                            (snd (snd (run cs d1 w1))))))
                           (finalFileName d1))
                      = Some (and 438 (not (umask envO)))))
         \<and> (\<forall>e. files w (finalFileName d1) = Some e \<and> symLink e = None \<longrightarrow>
               calls w1 = calls w @
                 [CallOpenTemporary (finalFileName d1) 384 (mode \<union> {Unbuffered}),
                  CallSetPermissions (stagingPath envO w d) (permissionBits e)]
               \<and> map_option permissionBits (files w1 (stagingPath envO w d))
                    = Some (permissionBits e)
               \<and> (\<forall>cs envC.
                     fst (QSaveFile_commit envC (fst (snd (run cs d1 w1))) (snd (snd (run cs d1 w1))))
                     \<longrightarrow> map_option permissionBits
                           (files (snd (snd (QSaveFile_commit envC (fst (snd (run cs d1 w1)))
                                               (snd (snd (run cs d1 w1))))))
                              (finalFileName d1))
                         = Some (permissionBits e)))"
proof -
  note o = open_staged [OF assms]
  note k = open_staged_creation [OF assms]
  let ?p = "fileName d"
  have fin: "finalFileName d1 = snd (resolveSymLinks w ?p)" by (rule o(4))
  have committed: "map_option permissionBits
               (files (snd (snd (QSaveFile_commit envC (fst (snd (run cs d1 w1)))
                                   (snd (snd (run cs d1 w1))))))
                  (finalFileName d1))
             = map_option permissionBits (files w1 (stagingPath envO w d))"
    if ok: "fst (QSaveFile_commit envC (fst (snd (run cs d1 w1))) (snd (snd (run cs d1 w1))))"
    for cs envC
  proof -
    obtain rs d2 w2 where r: "run cs d1 w1 = (rs, d2, w2)"
      by (cases "run cs d1 w1") auto
    obtain d3 w3 where c: "QSaveFile_commit envC d2 w2 = (True, d3, w3)"
      using ok r by (cases "QSaveFile_commit envC d2 w2") auto
    note rr = run_staged [OF o(1) r]
    note cc = commit_staged_True [OF conjunct1 [OF rr] c]
    from cc rr have "files w3 (finalFileName d1) = files w2 (stagingPath envO w d)"
      by simp
    with rr r c show ?thesis by simp
  qed
  have absent: "calls w1 = calls w @ [CallOpenTemporary (finalFileName d1) 438 (mode \<union> {Unbuffered})]
            \<and> map_option permissionBits (files w1 (stagingPath envO w d))
                 = Some (and 438 (not (umask envO)))
            \<and> (\<forall>cs envC.
                  fst (QSaveFile_commit envC (fst (snd (run cs d1 w1))) (snd (snd (run cs d1 w1))))
                  \<longrightarrow> map_option permissionBits
                        (files (snd (snd (QSaveFile_commit envC (fst (snd (run cs d1 w1)))
                                            (snd (snd (run cs d1 w1))))))
                           (finalFileName d1))
                      = Some (and 438 (not (umask envO))))"
    if n: "files w (finalFileName d1) = None"
  proof -
    from n fin have e: "fst (resolveSymLinks w ?p) = snd (resolveSymLinks w ?p)"
      by (intro resolveSymLinks_destination) simp
    from n fin e have x: "\<not> QFileInfo_exists w (fst (resolveSymLinks w ?p))"
      by (simp add: QFileInfo_exists_def)
    have b: "map_option permissionBits (files w1 (stagingPath envO w d))
               = Some (and 438 (not (umask envO)))"
      using x by (simp add: k newEntry_def)
    from x b committed show ?thesis by (simp add: k)
  qed
  have present: "calls w1 = calls w @
                 [CallOpenTemporary (finalFileName d1) 384 (mode \<union> {Unbuffered}),
                  CallSetPermissions (stagingPath envO w d) (permissionBits e)]
               \<and> map_option permissionBits (files w1 (stagingPath envO w d))
                    = Some (permissionBits e)
               \<and> (\<forall>cs envC.
                     fst (QSaveFile_commit envC (fst (snd (run cs d1 w1))) (snd (snd (run cs d1 w1))))
                     \<longrightarrow> map_option permissionBits
                           (files (snd (snd (QSaveFile_commit envC (fst (snd (run cs d1 w1)))
                                               (snd (snd (run cs d1 w1))))))
                              (finalFileName d1))
                         = Some (permissionBits e))"
    if s: "files w (finalFileName d1) = Some e" "symLink e = None" for e
  proof -
    from s fin have e: "fst (resolveSymLinks w ?p) = snd (resolveSymLinks w ?p)"
      by (intro resolveSymLinks_destination) simp
    from s fin e have x: "QFileInfo_exists w (fst (resolveSymLinks w ?p))"
      and y: "QFileInfo_permissions w (fst (resolveSymLinks w ?p)) = permissionBits e"
      by (simp_all add: QFileInfo_exists_def QFileInfo_permissions_def)
    have a: "calls w1 = calls w @
                 [CallOpenTemporary (finalFileName d1) 384 (mode \<union> {Unbuffered}),
                  CallSetPermissions (stagingPath envO w d) (permissionBits e)]"
      using x y by (simp add: k)
    have b: "map_option permissionBits (files w1 (stagingPath envO w d)) = Some (permissionBits e)"
      using x y by (simp add: k newEntry_def)
    from a b committed show ?thesis by simp
  qed
  from absent present show ?thesis by blast
qed


theorem staging_permissions_witness:
  "fst stagedOpened \<and> useTemporaryFile (fst (snd stagedOpened))
   \<and> map_option permissionBits (files exampleWorld ''/tmp/doc.txt'') = Some 416
   \<and> map_option symLink (files exampleWorld ''/tmp/doc.txt'') = Some None
   \<and> calls (snd (snd stagedOpened)) =
       [CallOpenTemporary ''/tmp/doc.txt'' 384 {Unbuffered, WriteOnly},
        CallSetPermissions ''/tmp/doc.txt.AbCdEf'' 416]
   \<and> fst (QSaveFile_commit exampleEnv (fst (snd stagedWritten)) (snd (snd stagedWritten)))
   \<and> map_option permissionBits
        (files (snd (snd (QSaveFile_commit exampleEnv (fst (snd stagedWritten))
                            (snd (snd stagedWritten))))) ''/tmp/doc.txt'') = Some 416
   \<and> fst newOpened \<and> useTemporaryFile (fst (snd newOpened))
   \<and> files exampleWorld ''/tmp/new.txt'' = None
   \<and> calls (snd (snd newOpened)) = [CallOpenTemporary ''/tmp/new.txt'' 438 {Unbuffered, WriteOnly}]
   \<and> fst (QSaveFile_commit exampleEnv (fst (snd newWritten)) (snd (snd newWritten)))
   \<and> map_option permissionBits
        (files (snd (snd (QSaveFile_commit exampleEnv (fst (snd newWritten))
                            (snd (snd newWritten))))) ''/tmp/new.txt'') = Some 420"
proof -
  have 1: "fst stagedOpened" by code_simp
  have 2: "useTemporaryFile (fst (snd stagedOpened))" by code_simp
  have 3: "finalFileName (fst (snd stagedOpened)) = ''/tmp/doc.txt''" by code_simp
  have 4: "stagingPath exampleEnv exampleWorld exampleSession = ''/tmp/doc.txt.AbCdEf''"
    by code_simp
  have 5: "files exampleWorld ''/tmp/doc.txt'' =
             Some \<lparr>isDirectory = False, isWritable = True, symLink = None,
                    permissionBits = 416, content = ''old''\<rparr>"
    by (simp add: exampleWorld_def)
  have 6: "fst (QSaveFile_commit exampleEnv (fst (snd stagedWritten)) (snd (snd stagedWritten)))"
    by code_simp
  have 7: "calls exampleWorld = []" by (simp add: exampleWorld_def)
  have o: "QSaveFile_open exampleEnv {WriteOnly} exampleSession exampleWorld =
             (True, fst (snd stagedOpened), snd (snd stagedOpened))"
    using 1 by (simp add: stagedOpened_def prod_eq_iff)
  let ?e = "\<lparr>isDirectory = False, isWritable = True, symLink = None,
               permissionBits = 416, content = ''old''\<rparr>"
  have h: "files exampleWorld ''/tmp/doc.txt'' = Some ?e \<and> symLink ?e = None"
    using 5 by simp
  note t = staging_permissions [OF o 2, unfolded 3 4, THEN conjunct2, rule_format, OF h]
  from t [THEN conjunct1] have a: "calls (snd (snd stagedOpened)) =
       [CallOpenTemporary ''/tmp/doc.txt'' 384 {Unbuffered, WriteOnly},
        CallSetPermissions ''/tmp/doc.txt.AbCdEf'' 416]"
    by (simp add: 7)
  from t [THEN conjunct2, THEN conjunct2, rule_format,
      of exampleEnv "[Write exampleEnv ''hello'']", folded stagedWritten_def, OF 6]
  have b: "map_option permissionBits
        (files (snd (snd (QSaveFile_commit exampleEnv (fst (snd stagedWritten))
                            (snd (snd stagedWritten))))) ''/tmp/doc.txt'') = Some 416"
    by simp
  have 11: "fst newOpened" by code_simp
  have 12: "useTemporaryFile (fst (snd newOpened))" by code_simp
  have 13: "finalFileName (fst (snd newOpened)) = ''/tmp/new.txt''" by code_simp
  have 14: "stagingPath exampleEnv exampleWorld (QSaveFile ''/tmp/new.txt'') = ''/tmp/new.txt.AbCdEf''"
    by code_simp
  have 15: "files exampleWorld ''/tmp/new.txt'' = None" by (simp add: exampleWorld_def)
  have 16: "fst (QSaveFile_commit exampleEnv (fst (snd newWritten)) (snd (snd newWritten)))"
    by code_simp
  have 18: "umask exampleEnv = 18" by (simp add: exampleEnv_def)
  have o': "QSaveFile_open exampleEnv {WriteOnly} (QSaveFile ''/tmp/new.txt'') exampleWorld =
             (True, fst (snd newOpened), snd (snd newOpened))"
    using 11 by (simp add: newOpened_def prod_eq_iff)
  note t' = staging_permissions [OF o' 12, unfolded 13 14, THEN conjunct1, rule_format, OF 15]
  from t' [THEN conjunct1] have a': "calls (snd (snd newOpened)) =
       [CallOpenTemporary ''/tmp/new.txt'' 438 {Unbuffered, WriteOnly}]"
    by (simp add: 7)
  from t' [THEN conjunct2, THEN conjunct2, rule_format,
      of exampleEnv "[Write exampleEnv ''hello'']", folded newWritten_def, OF 16]
  have b': "map_option permissionBits
        (files (snd (snd (QSaveFile_commit exampleEnv (fst (snd newWritten))
                            (snd (snd newWritten))))) ''/tmp/new.txt'') = Some 420"
    by (simp add: 18)
  from 1 2 5 6 a b 11 12 15 16 a' b' show ?thesis by simp
qed

text \<open>
  C8, as amended: the resolution of \<^verbatim>\<open>open()\<close> is the total function
  \<open>resolveSymLinks\<close>; a successful \<^verbatim>\<open>open()\<close> stores its result as the final file
  name. The link chain is followed for at most 127 hops, the link test being made again
  at each hop: when the chain ends after at most 126 hops, the resolved path is the final
  target; when the path and the 126 paths after it are all links (127 links or more, or a
  cycle), the resolved path is the target path itself; and a target path that does not
  exist resolves to itself.
\<close>

theorem symlink_resolution:
  "(n \<le> 126 \<and> (\<forall>k<n. QFileInfo_isSymLink w (hop w k p)) \<and> \<not> QFileInfo_isSymLink w (hop w n p)
      \<longrightarrow> snd (resolveSymLinks w p) = hop w n p)
   \<and> ((\<forall>k<127. QFileInfo_isSymLink w (hop w k p)) \<longrightarrow> snd (resolveSymLinks w p) = p)
   \<and> (\<not> QFileInfo_exists w p \<longrightarrow> snd (resolveSymLinks w p) = p)
   \<and> (QSaveFile_open env mode d w = (True, d1, w1) \<longrightarrow>
        finalFileName d1 = snd (resolveSymLinks w (fileName d)))"
proof -
  have a: "snd (resolveSymLinks w p) = hop w n p"
    if "n \<le> 126" "\<forall>k<n. QFileInfo_isSymLink w (hop w k p)" "\<not> QFileInfo_isSymLink w (hop w n p)"
  proof (cases "QFileInfo_isSymLink w p")
    case False
    with that(2) have "n = 0" by (cases n) (auto simp add: hop_def)
    with False show ?thesis by (simp add: resolveSymLinks_def hop_def)
  next
    case True
    from that(1) have "n + 2 \<le> 128" by simp
    from followSymLinks_stops [OF that(2,3) this] True that(1) show ?thesis
      by (simp add: resolveSymLinks_def)
  qed
  have b: "snd (resolveSymLinks w p) = p" if "\<forall>k<127. QFileInfo_isSymLink w (hop w k p)"
  proof -
    have "followSymLinks w (Suc 127) p = (0, hop w 127 p)"
      by (rule followSymLinks_exhausted [OF that])
    then have "followSymLinks w 128 p = (0, hop w 127 p)" by simp
    then show ?thesis by (simp add: resolveSymLinks_def)
  qed
  have c: "snd (resolveSymLinks w p) = p" if "\<not> QFileInfo_exists w p"
    using that by (simp add: resolveSymLinks_def QFileInfo_exists_def QFileInfo_isSymLink_def)
  from a b c open_True show ?thesis by blast
qed

theorem symlink_resolution_witness:
  "QFileInfo_isSymLink (linkChain 2) (hop (linkChain 2) 0 ''l'')
   \<and> QFileInfo_isSymLink (linkChain 2) (hop (linkChain 2) 1 ''l'')
   \<and> \<not> QFileInfo_isSymLink (linkChain 2) (hop (linkChain 2) 2 ''l'')
   \<and> snd (resolveSymLinks (linkChain 2) ''l'') = ''lll''
   \<and> QFileInfo_isSymLink loopWorld ''/tmp/loop''
   \<and> QFileInfo_symLinkTarget loopWorld ''/tmp/loop'' = ''/tmp/loop''
   \<and> snd (resolveSymLinks loopWorld ''/tmp/loop'') = ''/tmp/loop''
   \<and> \<not> QFileInfo_exists exampleWorld ''/tmp/new.txt''
   \<and> snd (resolveSymLinks exampleWorld ''/tmp/new.txt'') = ''/tmp/new.txt''
   \<and> fst stagedOpened
   \<and> finalFileName (fst (snd stagedOpened)) = ''/tmp/doc.txt''"
proof -
  have 0: "QFileInfo_isSymLink (linkChain 2) (hop (linkChain 2) 0 ''l'')" by code_simp
  have 1: "QFileInfo_isSymLink (linkChain 2) (hop (linkChain 2) 1 ''l'')" by code_simp
  have 2: "\<not> QFileInfo_isSymLink (linkChain 2) (hop (linkChain 2) 2 ''l'')" by code_simp
  have 3: "hop (linkChain 2) 2 ''l'' = ''lll''" by code_simp
  have "k < 2 \<Longrightarrow> QFileInfo_isSymLink (linkChain 2) (hop (linkChain 2) k ''l'')" for k
    using 0 1 by (cases k) (auto simp add: less_Suc_eq)
  then have 4: "\<forall>k<2. QFileInfo_isSymLink (linkChain 2) (hop (linkChain 2) k ''l'')" by blast
  have a: "snd (resolveSymLinks (linkChain 2) ''l'') = ''lll''"
    using symlink_resolution [where n = 2 and w = "linkChain 2" and p = "''l''"] 2 4
    by (simp add: 3)
  have 5: "QFileInfo_isSymLink loopWorld ''/tmp/loop''"
    by (simp add: QFileInfo_isSymLink_def loopWorld_def)
  have 6: "QFileInfo_symLinkTarget loopWorld ''/tmp/loop'' = ''/tmp/loop''"
    by (simp add: QFileInfo_symLinkTarget_def loopWorld_def)
  have "hop loopWorld k ''/tmp/loop'' = ''/tmp/loop''" for k
    by (induction k) (simp_all add: hop_def 6)
  with 5 have 7: "\<forall>k<127. QFileInfo_isSymLink loopWorld (hop loopWorld k ''/tmp/loop'')" by simp
  have b: "snd (resolveSymLinks loopWorld ''/tmp/loop'') = ''/tmp/loop''"
    using symlink_resolution [where w = loopWorld and p = "''/tmp/loop''"] 7 by blast
  have 8: "\<not> QFileInfo_exists exampleWorld ''/tmp/new.txt''"
    by (simp add: QFileInfo_exists_def exampleWorld_def)
  have c: "snd (resolveSymLinks exampleWorld ''/tmp/new.txt'') = ''/tmp/new.txt''"
    using symlink_resolution [where w = exampleWorld and p = "''/tmp/new.txt''"] 8 by blast
  have 9: "fst stagedOpened" by code_simp
  have 10: "snd (resolveSymLinks exampleWorld (fileName exampleSession)) = ''/tmp/doc.txt''"
    by code_simp
  have o: "QSaveFile_open exampleEnv {WriteOnly} exampleSession exampleWorld =
             (True, fst (snd stagedOpened), snd (snd stagedOpened))"
    using 9 by (simp add: stagedOpened_def prod_eq_iff)
  have e: "finalFileName (fst (snd stagedOpened)) = ''/tmp/doc.txt''"
    using symlink_resolution [where w = exampleWorld and env = exampleEnv and mode = "{WriteOnly}"
        and d = exampleSession and ?d1.0 = "fst (snd stagedOpened)"
        and ?w1.0 = "snd (snd stagedOpened)"] o 10 by simp
  from 0 1 2 a 5 6 b 8 c 9 e show ?thesis by simp
qed

text \<open>
  C8 as stated fails: a chain of 127 links that ends in a regular file is within 128
  hops, yet the resolved path is the original target path, not the final target.
\<close>

theorem chain_of_127_links_falls_back:
  "hop (linkChain 127) 127 ''l'' = replicate 128 (CHR ''l'')
   \<and> \<not> QFileInfo_isSymLink (linkChain 127) (replicate 128 (CHR ''l''))
   \<and> QFileInfo_exists (linkChain 127) (replicate 128 (CHR ''l''))
   \<and> snd (resolveSymLinks (linkChain 127) ''l'') = ''l''
   \<and> snd (resolveSymLinks (linkChain 127) ''l'') \<noteq> hop (linkChain 127) 127 ''l''"
proof -
  have h: "hop (linkChain 127) 127 ''l'' = replicate (Suc 127) (CHR ''l'')"
    by (rule hop_linkChain) simp
  have n: "\<not> QFileInfo_isSymLink (linkChain 127) (replicate (Suc 127) (CHR ''l''))"
    by (simp only: isSymLink_linkChain)
  have x: "QFileInfo_exists (linkChain 127) (replicate (Suc 127) (CHR ''l''))"
    by (simp add: QFileInfo_exists_def linkChain_def)
  have "\<forall>k<127. QFileInfo_isSymLink (linkChain 127) (hop (linkChain 127) k ''l'')"
    by (simp add: hop_linkChain isSymLink_linkChain del: replicate_Suc)
  then have "followSymLinks (linkChain 127) (Suc 127) ''l'' = (0, hop (linkChain 127) 127 ''l'')"
    by (rule followSymLinks_exhausted)
  then have f: "followSymLinks (linkChain 127) 128 ''l'' = (0, hop (linkChain 127) 127 ''l'')"
    by simp
  have l: "QFileInfo_isSymLink (linkChain 127) ''l''"
    using isSymLink_linkChain [of 127 0] by simp
  have r: "snd (resolveSymLinks (linkChain 127) ''l'') = ''l''"
    using l f by (simp add: resolveSymLinks_def)
  have d: "''l'' \<noteq> replicate (Suc 127) (CHR ''l'')"
  proof
    assume "''l'' = replicate (Suc 127) (CHR ''l'')"
    then have "length ''l'' = length (replicate (Suc 127) (CHR ''l''))" by (rule arg_cong)
    then show False by (simp del: replicate_Suc)
  qed
  from h n x r d show ?thesis by simp
qed

end
